theory Spec2Isabelle
  imports Main
begin

section \<open>Strings and paths\<close>

text \<open>
  Strings are lists of characters. The source is TypeScript running on Node's \<open>path\<close>
  module; the model takes its POSIX flavour (\<open>path.sep = "/"\<close>). The three functions
  \<open>path.join\<close>, \<open>path.dirname\<close> and \<open>path.basename\<close> are library code the plugin
  calls; they are written here after Node's implementation. Timestamps are integral
  epoch milliseconds (\<open>Date.now()\<close>, \<open>file.stat.mtime\<close>), taken as \<open>int\<close>.
\<close>

type_synonym path = string
type_synonym ident = string

definition slash :: char where
  "slash = CHR ''/''"

text \<open>\<open>s.split(sep)\<close> for a one-character separator: the pieces between separators.\<close>

fun splitOn :: "char \<Rightarrow> string \<Rightarrow> string list" where
  "splitOn c [] = [[]]"
| "splitOn c (x # xs) =
     (if x = c then [] # splitOn c xs
      else (case splitOn c xs of
              [] \<Rightarrow> [[x]]
            | p # ps \<Rightarrow> (x # p) # ps))"

text \<open>\<open>segs.join("/")\<close>.\<close>

fun joinWith :: "char \<Rightarrow> string list \<Rightarrow> string" where
  "joinWith c [] = []"
| "joinWith c [p] = p"
| "joinWith c (p # q # ps) = p @ c # joinWith c (q # ps)"

text \<open>
  Node's \<open>normalizeString\<close>: the segments of the path are pushed on a stack kept in
  reverse; an empty segment and \<open>.\<close> are dropped, \<open>..\<close> pops the last segment unless
  the stack is empty or ends in \<open>..\<close>, where it is pushed if \<open>allowAboveRoot\<close> and
  dropped otherwise.
\<close>

fun normalizeSegs :: "bool \<Rightarrow> string list \<Rightarrow> string list \<Rightarrow> string list" where
  "normalizeSegs allowAboveRoot acc [] = rev acc"
| "normalizeSegs allowAboveRoot acc (seg # segs) =
     (if seg = [] \<or> seg = ''.'' then normalizeSegs allowAboveRoot acc segs
      else if seg = ''..'' then
        (case acc of
           [] \<Rightarrow> normalizeSegs allowAboveRoot (if allowAboveRoot then [''..''] else []) segs
         | t # below \<Rightarrow>
             if t = ''..''
             then normalizeSegs allowAboveRoot (if allowAboveRoot then ''..'' # acc else acc) segs
             else normalizeSegs allowAboveRoot below segs)
      else normalizeSegs allowAboveRoot (seg # acc) segs)"

definition normalizeString :: "string \<Rightarrow> bool \<Rightarrow> string" where
  "normalizeString p allowAboveRoot = joinWith slash (normalizeSegs allowAboveRoot [] (splitOn slash p))"

text \<open>\<open>path.posix.normalize\<close>.\<close>

definition path_normalize :: "path \<Rightarrow> path" where
  "path_normalize p =
     (if p = [] then ''.''
      else
        let isAbsolute = (hd p = slash);
            trailingSeparator = (last p = slash);
            q = normalizeString p (\<not> isAbsolute)
        in if q = [] then (if isAbsolute then ''/'' else if trailingSeparator then ''./'' else ''.'')
           else
             let q' = (if trailingSeparator then q @ ''/'' else q)
             in if isAbsolute then slash # q' else q')"

text \<open>\<open>path.posix.join(a, b)\<close>: the non-empty arguments joined by \<open>/\<close>, normalised.\<close>

definition path_join :: "path \<Rightarrow> path \<Rightarrow> path" where
  "path_join a b =
     (if a = [] \<and> b = [] then ''.''
      else if a = [] then path_normalize b
      else if b = [] then path_normalize a
      else path_normalize (a @ slash # b))"

text \<open>
  \<open>path.posix.dirname\<close>: scanning from the end (never looking at index 0), skip the
  trailing slashes, skip the last name, and cut at the slash before it.
\<close>

definition path_dirname :: "path \<Rightarrow> path" where
  "path_dirname p =
     (if p = [] then ''.''
      else
        let hasRoot = (hd p = slash);
            r = dropWhile (\<lambda>c. c \<noteq> slash) (dropWhile (\<lambda>c. c = slash) (rev (tl p)))
        in (case r of
              [] \<Rightarrow> if hasRoot then ''/'' else ''.''
            | _ # front \<Rightarrow>
                if hasRoot \<and> front = [] then ''//''
                else hd p # rev front))"

text \<open>\<open>path.posix.basename\<close> (no suffix argument): the last name, trailing slashes removed.\<close>

definition path_basename :: "path \<Rightarrow> string" where
  "path_basename p = rev (takeWhile (\<lambda>c. c \<noteq> slash) (dropWhile (\<lambda>c. c = slash) (rev p)))"

text \<open>
  \<open>String.prototype.toLowerCase\<close> on the ASCII letters. A character outside
  \<open>A\<close>..\<open>Z\<close> is left as it is; no character outside ASCII lowercases to one of the
  letters that occur in the extensions \<open>getMimeType\<close> tests for.
\<close>

definition lowerChar :: "char \<Rightarrow> char" where
  "lowerChar c =
     (case map_of (zip ''ABCDEFGHIJKLMNOPQRSTUVWXYZ'' ''abcdefghijklmnopqrstuvwxyz'') c of
        None \<Rightarrow> c
      | Some l \<Rightarrow> l)"

definition toLowerCase :: "string \<Rightarrow> string" where
  "toLowerCase s = map lowerChar s"

definition startsWith :: "string \<Rightarrow> string \<Rightarrow> bool" where
  "startsWith s pre = (take (length pre) s = pre)"

section \<open>MIME classification\<close>

definition getMimeType :: "string \<Rightarrow> string" where
  "getMimeType extension =
     (let e = toLowerCase extension in
      if e = ''md'' then ''text/markdown''
      else if e = ''png'' then ''image/png''
      else if e = ''jpg'' \<or> e = ''jpeg'' then ''image/jpeg''
      else if e = ''gif'' then ''image/gif''
      else if e = ''json'' then ''application/json''
      else ''application/octet-stream'')"

section \<open>The vault, the remote store and the plugin state\<close>

text \<open>
  The vault is the host's file tree. A \<open>TFile\<close> has a name, an extension and a
  modification time; \<open>tf_data\<close> is what reading it yields (\<open>None\<close>: the read is
  rejected). A folder is a name and its children in the order the host presents them.
\<close>

datatype content = Text string | Binary string

record tfile =
  tf_name :: string
  tf_extension :: string
  tf_mtime :: int
  tf_data :: "string option"

datatype node = TFile tfile | TFolder string "node list"

text \<open>
  The requests the plugin sends. \<open>files.list\<close> is always a folder query by name, with or
  without the clause \<open>'parentId' in parents\<close>; a created or updated resource is folder
  metadata (name, \<open>parents\<close>) or a file (name, \<open>parents\<close>, MIME type, body). A parent id
  is \<open>None\<close> where the source's \<open>parentId\<close> is \<open>null\<close>.
\<close>

datatype query = FolderNamed string | FolderNamedIn string "ident option"

datatype resource =
    FolderMeta string "ident option list"
  | FileMedia string "ident option list" string content

datatype call =
    GetAccessToken
  | FilesList query
  | FilesCreate resource
  | FilesUpdate ident resource
  | SaveData

text \<open>
  The collaborators of the plugin (token provider, remote store, the host's data file)
  are a state machine over a state \<open>'r\<close> of their own: each operation maps the state to a
  reply and a new state. A rejected promise is \<open>None\<close> (\<open>False\<close> for the two operations
  that return nothing). Nothing is assumed of the replies.
\<close>

record 'r host =
  getAccessToken :: "'r \<Rightarrow> bool \<times> 'r"
  files_list :: "query \<Rightarrow> 'r \<Rightarrow> ident list option \<times> 'r"
  files_create :: "resource \<Rightarrow> 'r \<Rightarrow> ident option \<times> 'r"
  files_update :: "ident \<Rightarrow> resource \<Rightarrow> 'r \<Rightarrow> ident option \<times> 'r"
  saveData :: "'r \<Rightarrow> bool \<times> 'r"

text \<open>
  The settings object: the four properties the interface declares, and whatever other
  own properties the object has at run time (\<open>Object.assign\<close> copies every own
  enumerable property of its sources), each with a string value.
\<close>

record settings =
  googleDriveClientId :: string
  googleDriveClientSecret :: string
  googleDriveRefreshToken :: string
  lastSyncTimestamp :: "int option"
  otherProperties :: "(string \<times> string) list"

text \<open>
  The host keeps one data file for the plugin. \<open>saveData(data)\<close> replaces its content
  with \<open>data\<close> and \<open>loadData()\<close> returns its content, \<open>null\<close> when there is no file:
  the data is the only argument, as \<open>loadSettings\<close> and \<open>saveSettings\<close> use the two
  calls, and an argument beyond what a function takes is ignored. The plugin writes the
  settings object (\<open>saveData(this.settings)\<close>) or a string (the first argument of
  \<open>saveData('fileIds', this.fileIds)\<close>).
\<close>

datatype data = SettingsData settings | StringData string

datatype event =
    Call call
  | VaultRead path
  | VaultReadBinary path
  | ConsoleLog string
  | ConsoleError string
  | Notice string

datatype error = RemoteError call | ReadError path

datatype 'a result = Ok 'a | Threw error

text \<open>
  The plugin instance (\<open>settings\<close>, \<open>obsidianFolderId\<close>, \<open>drivefolderIds\<close>, \<open>fileIds\<close>),
  the content of the host's data file (\<open>None\<close>: there is no file), the collaborators'
  state and the trace of what the plugin did: every request it sent, every vault read,
  every console line and notice, in order.

  The two dictionaries are maps from property names to the strings they hold, and a
  key that is not there reads as \<open>undefined\<close>. A JavaScript object also answers for
  the property names it inherits (\<open>constructor\<close>, \<open>toString\<close>, ...): \<open>fileIds\<close> is only
  read at keys that start with the separator, which no inherited name does; for
  \<open>drivefolderIds\<close> a folder path that spells an inherited name is outside the model.
\<close>

record 'r plugin =
  settings :: settings
  obsidianFolderId :: "ident option"
  drivefolderIds :: "path \<rightharpoonup> ident"
  fileIds :: "path \<rightharpoonup> ident"
  dataFile :: "data option"
  world :: 'r
  trace :: "event list"

definition emit :: "event \<Rightarrow> 'r plugin \<Rightarrow> 'r plugin" where
  "emit e s = s\<lparr>trace := trace s @ [e]\<rparr>"

text \<open>
  JavaScript truthiness of a looked-up id: \<open>undefined\<close> and the empty string are falsy.
  \<open>truthyId v\<close> is the id when \<open>if (v)\<close> takes the branch.
\<close>

definition truthyId :: "ident option \<Rightarrow> ident option" where
  "truthyId v = (case v of None \<Rightarrow> None | Some i \<Rightarrow> if i = [] then None else Some i)"

subsection \<open>Awaited calls\<close>

definition oauth_getAccessToken :: "'r host \<Rightarrow> 'r plugin \<Rightarrow> unit result \<times> 'r plugin" where
  "oauth_getAccessToken h s =
     (case getAccessToken h (world s) of
        (ok, w) \<Rightarrow>
          (if ok then Ok () else Threw (RemoteError GetAccessToken),
           emit (Call GetAccessToken) (s\<lparr>world := w\<rparr>)))"

definition drive_files_list :: "'r host \<Rightarrow> query \<Rightarrow> 'r plugin \<Rightarrow> ident list result \<times> 'r plugin" where
  "drive_files_list h q s =
     (case files_list h q (world s) of
        (reply, w) \<Rightarrow>
          ((case reply of None \<Rightarrow> Threw (RemoteError (FilesList q)) | Some files \<Rightarrow> Ok files),
           emit (Call (FilesList q)) (s\<lparr>world := w\<rparr>)))"

definition drive_files_create :: "'r host \<Rightarrow> resource \<Rightarrow> 'r plugin \<Rightarrow> ident result \<times> 'r plugin" where
  "drive_files_create h res s =
     (case files_create h res (world s) of
        (reply, w) \<Rightarrow>
          ((case reply of None \<Rightarrow> Threw (RemoteError (FilesCreate res)) | Some i \<Rightarrow> Ok i),
           emit (Call (FilesCreate res)) (s\<lparr>world := w\<rparr>)))"

definition drive_files_update :: "'r host \<Rightarrow> ident \<Rightarrow> resource \<Rightarrow> 'r plugin \<Rightarrow> ident result \<times> 'r plugin" where
  "drive_files_update h fileId res s =
     (case files_update h fileId res (world s) of
        (reply, w) \<Rightarrow>
          ((case reply of None \<Rightarrow> Threw (RemoteError (FilesUpdate fileId res)) | Some i \<Rightarrow> Ok i),
           emit (Call (FilesUpdate fileId res)) (s\<lparr>world := w\<rparr>)))"

definition vault_read :: "tfile \<Rightarrow> path \<Rightarrow> 'r plugin \<Rightarrow> content result \<times> 'r plugin" where
  "vault_read file filePath s =
     ((case tf_data file of None \<Rightarrow> Threw (ReadError filePath) | Some d \<Rightarrow> Ok (Text d)),
      emit (VaultRead filePath) s)"

definition vault_readBinary :: "tfile \<Rightarrow> path \<Rightarrow> 'r plugin \<Rightarrow> content result \<times> 'r plugin" where
  "vault_readBinary file filePath s =
     ((case tf_data file of None \<Rightarrow> Threw (ReadError filePath) | Some d \<Rightarrow> Ok (Binary d)),
      emit (VaultReadBinary filePath) s)"

text \<open>
  \<open>saveSettings\<close> is \<open>saveData(this.settings)\<close>; \<open>saveFileIds\<close> is the call
  \<open>saveData('fileIds', this.fileIds)\<close> of \<open>syncWithGoogleDrive\<close> and \<open>onunload\<close>, whose
  data is the string \<open>'fileIds'\<close>: the mapping is the argument the host does not take.
  A rejected write leaves the data file as it was.
\<close>

definition saveSettings :: "'r host \<Rightarrow> 'r plugin \<Rightarrow> unit result \<times> 'r plugin" where
  "saveSettings h s =
     (case saveData h (world s) of
        (ok, w) \<Rightarrow>
          (if ok then (Ok (), emit (Call SaveData) (s\<lparr>world := w, dataFile := Some (SettingsData (settings s))\<rparr>))
           else (Threw (RemoteError SaveData), emit (Call SaveData) (s\<lparr>world := w\<rparr>))))"

definition saveFileIds :: "'r host \<Rightarrow> 'r plugin \<Rightarrow> unit result \<times> 'r plugin" where
  "saveFileIds h s =
     (case saveData h (world s) of
        (ok, w) \<Rightarrow>
          (if ok then (Ok (), emit (Call SaveData) (s\<lparr>world := w, dataFile := Some (StringData ''fileIds'')\<rparr>))
           else (Threw (RemoteError SaveData), emit (Call SaveData) (s\<lparr>world := w\<rparr>))))"

section \<open>The sync engine\<close>

subsection \<open>ensureObsidianFolder\<close>

definition ensureObsidianFolder :: "'r host \<Rightarrow> 'r plugin \<Rightarrow> unit result \<times> 'r plugin" where
  "ensureObsidianFolder h s =
     (let folderName = ''Obsidian Vault'' in
      case drive_files_list h (FolderNamed folderName) s of
        (Threw e, s1) \<Rightarrow> (Threw e, s1)
      | (Ok files, s1) \<Rightarrow>
          (case (case files of
                   f # _ \<Rightarrow> (Ok f, s1)
                 | [] \<Rightarrow> drive_files_create h (FolderMeta folderName []) s1) of
             (Threw e, s2) \<Rightarrow> (Threw e, s2)
           | (Ok i, s2) \<Rightarrow>
               (Ok (),
                emit (ConsoleLog (''Obsidian folder ID: '' @ i))
                  (s2\<lparr>obsidianFolderId := Some i,
                      drivefolderIds := (drivefolderIds s2)(''/'' \<mapsto> i)\<rparr>))))"

subsection \<open>ensureDriveFolder\<close>

text \<open>
  \<open>ensureDriveFolder_step\<close> is the body of the loop over \<open>pathParts\<close>, after
  \<open>currentPath\<close> has been extended: it returns the new \<open>parentId\<close>. The loop carries
  \<open>currentPath\<close> and \<open>parentId\<close> as arguments. A request that is rejected throws out of
  the loop: the function has no handler.
\<close>

definition ensureDriveFolder_step ::
  "'r host \<Rightarrow> string \<Rightarrow> path \<Rightarrow> ident option \<Rightarrow> 'r plugin \<Rightarrow> ident result \<times> 'r plugin" where
  "ensureDriveFolder_step h part currentPath parentId s =
     (case truthyId (drivefolderIds s currentPath) of
        Some cached \<Rightarrow> (Ok cached, s)
      | None \<Rightarrow>
          (case drive_files_list h (FolderNamedIn part parentId) s of
             (Threw e, s1) \<Rightarrow> (Threw e, s1)
           | (Ok files, s1) \<Rightarrow>
               (case (case files of
                        f # _ \<Rightarrow> (Ok f, s1)
                      | [] \<Rightarrow> drive_files_create h (FolderMeta part [parentId]) s1) of
                  (Threw e, s2) \<Rightarrow> (Threw e, s2)
                | (Ok i, s2) \<Rightarrow>
                    (Ok i, s2\<lparr>drivefolderIds := (drivefolderIds s2)(currentPath \<mapsto> i)\<rparr>))))"

fun ensureDriveFolder_loop ::
  "'r host \<Rightarrow> string list \<Rightarrow> path \<Rightarrow> ident option \<Rightarrow> 'r plugin \<Rightarrow> ident option result \<times> 'r plugin" where
  "ensureDriveFolder_loop h [] currentPath parentId s = (Ok parentId, s)"
| "ensureDriveFolder_loop h (part # parts) currentPath0 parentId s =
     (let currentPath = path_join currentPath0 part in
      case ensureDriveFolder_step h part currentPath parentId s of
        (Threw e, s1) \<Rightarrow> (Threw e, s1)
      | (Ok i, s1) \<Rightarrow> ensureDriveFolder_loop h parts currentPath (Some i) s1)"

definition pathParts :: "path \<Rightarrow> string list" where
  "pathParts folderPath = filter (\<lambda>part. length part > 0) (splitOn slash folderPath)"

definition ensureDriveFolder :: "'r host \<Rightarrow> path \<Rightarrow> 'r plugin \<Rightarrow> ident option result \<times> 'r plugin" where
  "ensureDriveFolder h folderPath s =
     ensureDriveFolder_loop h (pathParts folderPath) [] (obsidianFolderId s) s"

subsection \<open>uploadFile and uploadObsidianFile\<close>

text \<open>
  \<open>ensureDriveFolder\<close> is awaited before the \<open>try\<close>; the create or update request is
  inside it, and its rejection is caught: the function logs and returns \<open>null\<close>.
\<close>

definition uploadFile ::
  "'r host \<Rightarrow> path \<Rightarrow> content \<Rightarrow> string \<Rightarrow> 'r plugin \<Rightarrow> ident option result \<times> 'r plugin" where
  "uploadFile h filePath body mimeType s =
     (let parentPath = path_dirname filePath;
          fileName = path_basename filePath
      in case ensureDriveFolder h parentPath s of
           (Threw e, s1) \<Rightarrow> (Threw e, s1)
         | (Ok parentId, s1) \<Rightarrow>
             (let media = FileMedia fileName [parentId] mimeType body in
              case truthyId (fileIds s1 filePath) of
                Some fileId \<Rightarrow>
                  (case drive_files_update h fileId media s1 of
                     (Ok i, s2) \<Rightarrow>
                       (Ok (Some i), emit (ConsoleLog (''File updated: '' @ filePath @ '', ID: '' @ i)) s2)
                   | (Threw err, s2) \<Rightarrow>
                       (Ok None, emit (ConsoleError (''Error uploading file '' @ filePath @ '':'')) s2))
              | None \<Rightarrow>
                  (case drive_files_create h media s1 of
                     (Ok i, s2) \<Rightarrow>
                       (Ok (Some i), emit (ConsoleLog (''File created: '' @ filePath @ '', ID: '' @ i)) s2)
                   | (Threw err, s2) \<Rightarrow>
                       (Ok None, emit (ConsoleError (''Error uploading file '' @ filePath @ '':'')) s2))))"

definition uploadObsidianFile :: "'r host \<Rightarrow> tfile \<Rightarrow> path \<Rightarrow> 'r plugin \<Rightarrow> unit result \<times> 'r plugin" where
  "uploadObsidianFile h file currentPath s =
     (let fileName = tf_name file;
          mimeType = getMimeType (tf_extension file);
          filePath = path_join currentPath fileName
      in if (case lastSyncTimestamp (settings s) of
               None \<Rightarrow> False
             | Some t \<Rightarrow> tf_mtime file \<le> t)
         then (Ok (), emit (ConsoleLog (''Skipping '' @ filePath @ '' - not modified since last sync'')) s)
         else
           (case (if startsWith mimeType ''text/'' \<or> mimeType = ''application/json''
                  then vault_read file filePath s
                  else vault_readBinary file filePath s) of
              (Threw e, s1) \<Rightarrow> (Threw e, s1)
            | (Ok body, s1) \<Rightarrow>
                (case uploadFile h filePath body mimeType s1 of
                   (Threw e, s2) \<Rightarrow> (Threw e, s2)
                 | (Ok fileId, s2) \<Rightarrow>
                     (case truthyId fileId of
                        Some i \<Rightarrow> (Ok (), s2\<lparr>fileIds := (fileIds s2)(filePath \<mapsto> i)\<rparr>)
                      | None \<Rightarrow> (Ok (), s2)))))"

subsection \<open>The traversal\<close>

text \<open>
  \<open>uploadFolderContents\<close> is the loop over \<open>folder.children\<close> (the folder is passed as
  its children); \<open>uploadFolderItem\<close> is the body of the loop. An error thrown by an item
  ends the loop: nothing in the traversal catches it.
\<close>

fun uploadFolderContents :: "'r host \<Rightarrow> node list \<Rightarrow> path \<Rightarrow> 'r plugin \<Rightarrow> unit result \<times> 'r plugin"
  and uploadFolderItem :: "'r host \<Rightarrow> node \<Rightarrow> path \<Rightarrow> 'r plugin \<Rightarrow> unit result \<times> 'r plugin" where
  "uploadFolderContents h [] currentPath s = (Ok (), s)"
| "uploadFolderContents h (item # items) currentPath s =
     (case uploadFolderItem h item currentPath s of
        (Threw e, s1) \<Rightarrow> (Threw e, s1)
      | (Ok u, s1) \<Rightarrow> uploadFolderContents h items currentPath s1)"
| "uploadFolderItem h (TFile file) currentPath s = uploadObsidianFile h file currentPath s"
| "uploadFolderItem h (TFolder name children) currentPath s =
     (let newPath = path_join currentPath name in
      case ensureDriveFolder h newPath s of
        (Threw e, s1) \<Rightarrow> (Threw e, s1)
      | (Ok parent, s1) \<Rightarrow> uploadFolderContents h children newPath s1)"

definition uploadVaultContents :: "'r host \<Rightarrow> node list \<Rightarrow> 'r plugin \<Rightarrow> unit result \<times> 'r plugin" where
  "uploadVaultContents h rootFolder s = uploadFolderContents h rootFolder ''/'' s"

subsection \<open>syncWithGoogleDrive\<close>

text \<open>
  The body of the \<open>try\<close> block; \<open>now\<close> is what \<open>Date.now()\<close> returns when the traversal
  is over.
\<close>

definition syncWithGoogleDrive_try ::
  "'r host \<Rightarrow> node list \<Rightarrow> int \<Rightarrow> 'r plugin \<Rightarrow> unit result \<times> 'r plugin" where
  "syncWithGoogleDrive_try h rootFolder now s =
     (case oauth_getAccessToken h s of
        (Threw e, s1) \<Rightarrow> (Threw e, s1)
      | (Ok u1, s1) \<Rightarrow>
          (case ensureObsidianFolder h
                  ((emit (Notice ''Syncing with Google Drive...'') s1)\<lparr>drivefolderIds := Map.empty\<rparr>) of
             (Threw e, s2) \<Rightarrow> (Threw e, s2)
           | (Ok u2, s2) \<Rightarrow>
               (case uploadVaultContents h rootFolder s2 of
                  (Threw e, s3) \<Rightarrow> (Threw e, s3)
                | (Ok u3, s3) \<Rightarrow>
                    (case saveSettings h (s3\<lparr>settings := (settings s3)\<lparr>lastSyncTimestamp := Some now\<rparr>\<rparr>) of
                       (Threw e, s4) \<Rightarrow> (Threw e, s4)
                     | (Ok u4, s4) \<Rightarrow>
                         (case saveFileIds h s4 of
                            (Threw e, s5) \<Rightarrow> (Threw e, s5)
                          | (Ok u5, s5) \<Rightarrow> (Ok (), emit (Notice ''Sync complete!'') s5))))))"

definition syncWithGoogleDrive :: "'r host \<Rightarrow> node list \<Rightarrow> int \<Rightarrow> 'r plugin \<Rightarrow> 'r plugin" where
  "syncWithGoogleDrive h rootFolder now s =
     (if googleDriveRefreshToken (settings s) = []
      then emit (Notice ''Please log in to Google Drive first.'') s
      else
        (case syncWithGoogleDrive_try h rootFolder now s of
           (Ok u, s1) \<Rightarrow> s1
         | (Threw e, s1) \<Rightarrow>
             emit (Notice ''Error during sync. Please try again.'')
               (emit (ConsoleError ''Error syncing with Google Drive:'') s1)))"

subsection \<open>Loading and unloading\<close>

text \<open>
  The defaults; the first two come from the process environment.
\<close>

definition DEFAULT_SETTINGS :: "string \<Rightarrow> string \<Rightarrow> settings" where
  "DEFAULT_SETTINGS envClientId envClientSecret =
     \<lparr>googleDriveClientId = envClientId,
      googleDriveClientSecret = envClientSecret,
      googleDriveRefreshToken = [],
      lastSyncTimestamp = None,
      otherProperties = []\<rparr>"

text \<open>
  The own enumerable properties \<open>Object.assign\<close> copies from a string: one for each
  index, named by the decimal numeral of the index, holding the character there.
\<close>

fun decimal :: "nat \<Rightarrow> string" where
  "decimal n =
     (if n < 10 then [''0123456789'' ! n]
      else decimal (n div 10) @ [''0123456789'' ! (n mod 10)])"

declare decimal.simps [simp del]

definition indexProperties :: "string \<Rightarrow> (string \<times> string) list" where
  "indexProperties str = map (\<lambda>i. (decimal i, [str ! i])) [0..<length str]"

text \<open>
  \<open>loadSettings\<close> is \<open>Object.assign({}, DEFAULT_SETTINGS, await this.loadData())\<close>:
  the defaults when there is no data file, the stored settings object when the file
  holds one (it has the four declared properties, which replace the defaults), and
  the defaults with the index properties of the string when the file holds a string.
\<close>

definition loadSettings :: "string \<Rightarrow> string \<Rightarrow> 'r plugin \<Rightarrow> 'r plugin" where
  "loadSettings envClientId envClientSecret s =
     s\<lparr>settings :=
         (case dataFile s of
            None \<Rightarrow> DEFAULT_SETTINGS envClientId envClientSecret
          | Some (SettingsData stored) \<Rightarrow> stored
          | Some (StringData str) \<Rightarrow>
              (DEFAULT_SETTINGS envClientId envClientSecret)\<lparr>otherProperties := indexProperties str\<rparr>)\<rparr>"

text \<open>
  \<open>Object.assign({}, await this.loadData('fileIds') || {})\<close>: \<open>loadData\<close> returns the
  content of the data file, whatever the argument. The dictionary gets the own
  properties of that content: none when there is no file or the file holds the empty
  string, the index properties of a string, the properties of a settings object.
  (\<open>lastSyncTimestamp\<close> of a settings object holds a number or \<open>null\<close>, not a string,
  and has no entry in the map; its name does not start with the separator, so no
  lookup of the plugin reads it.)
\<close>

definition loadFileIds :: "data option \<Rightarrow> (path \<rightharpoonup> ident)" where
  "loadFileIds d =
     (case d of
        None \<Rightarrow> Map.empty
      | Some (StringData str) \<Rightarrow> if str = [] then Map.empty else map_of (indexProperties str)
      | Some (SettingsData stored) \<Rightarrow>
          map_of ([(''googleDriveClientId'', googleDriveClientId stored),
                   (''googleDriveClientSecret'', googleDriveClientSecret stored),
                   (''googleDriveRefreshToken'', googleDriveRefreshToken stored)]
                  @ otherProperties stored))"

text \<open>
  \<open>onload\<close>: the per-instance fields start as the class initialises them, the settings
  are loaded, and \<open>fileIds\<close> is built from what \<open>loadData\<close> returns. \<open>onunload\<close> is the
  call \<open>saveData('fileIds', this.fileIds)\<close>.
\<close>

definition onload :: "string \<Rightarrow> string \<Rightarrow> 'r plugin \<Rightarrow> 'r plugin" where
  "onload envClientId envClientSecret s =
     (let s1 = loadSettings envClientId envClientSecret
                 (s\<lparr>obsidianFolderId := None, drivefolderIds := Map.empty, fileIds := Map.empty\<rparr>)
      in s1\<lparr>fileIds := loadFileIds (dataFile s1)\<rparr>)"

definition onunload :: "'r host \<Rightarrow> 'r plugin \<Rightarrow> 'r plugin" where
  "onunload h s = snd (saveFileIds h s)"

text \<open>
  A session is what the host application does with one instance: load it, run the sync
  command some number of times (each time on the vault as it then is, with the clock as
  it then reads), unload it. A lifetime is a sequence of sessions over the same data
  file.
\<close>

definition passes :: "'r host \<Rightarrow> (node list \<times> int) list \<Rightarrow> 'r plugin \<Rightarrow> 'r plugin" where
  "passes h runs s = foldl (\<lambda>st (rootFolder, now). syncWithGoogleDrive h rootFolder now st) s runs"

definition session :: "'r host \<Rightarrow> string \<Rightarrow> string \<Rightarrow> (node list \<times> int) list \<Rightarrow> 'r plugin \<Rightarrow> 'r plugin" where
  "session h envClientId envClientSecret runs s =
     onunload h (passes h runs (onload envClientId envClientSecret s))"

definition lifetime ::
  "'r host \<Rightarrow> string \<Rightarrow> string \<Rightarrow> (node list \<times> int) list list \<Rightarrow> 'r plugin \<Rightarrow> 'r plugin" where
  "lifetime h envClientId envClientSecret sessions s =
     foldl (\<lambda>st runs. session h envClientId envClientSecret runs st) s sessions"

section \<open>A remote store in memory\<close>

text \<open>
  Modelled from the spec: the remote store, the token provider and the host's data
  file are collaborators outside the repository; the spec gives the remote store four
  operations (list children by name and type, create folder, create file, update
  file), each of which may fail. This is one well-behaved instance of them, for the
  end-to-end statements: folders and files are kept in creation order, a listing
  returns the matching folders in that order, a created object gets a freshly minted
  non-empty id, an update replaces the file with that id and is rejected when there is
  none. \<open>st_faults\<close> is a schedule of outages: each operation consumes its head, and is
  rejected without any effect on the store when the head is \<open>True\<close>.
\<close>

record store =
  st_folders :: "(ident \<times> string \<times> ident option list) list"
  st_files :: "(ident \<times> resource) list"
  st_minted :: nat
  st_faults :: "bool list"

definition mint :: "nat \<Rightarrow> ident" where
  "mint n = ''id'' @ replicate n (CHR ''+'')"

definition next_fault :: "store \<Rightarrow> bool \<times> store" where
  "next_fault st = (case st_faults st of [] \<Rightarrow> (False, st) | b # bs \<Rightarrow> (b, st\<lparr>st_faults := bs\<rparr>))"

definition matches :: "query \<Rightarrow> ident \<times> string \<times> ident option list \<Rightarrow> bool" where
  "matches q f =
     (case q of
        FolderNamed n \<Rightarrow> fst (snd f) = n
      | FolderNamedIn n parent \<Rightarrow> fst (snd f) = n \<and> parent \<in> set (snd (snd f)))"

definition listing :: "store \<Rightarrow> query \<Rightarrow> ident list" where
  "listing st q = map fst (filter (matches q) (st_folders st))"

definition mem_getAccessToken :: "store \<Rightarrow> bool \<times> store" where
  "mem_getAccessToken st = (case next_fault st of (fault, st1) \<Rightarrow> (\<not> fault, st1))"

definition mem_files_list :: "query \<Rightarrow> store \<Rightarrow> ident list option \<times> store" where
  "mem_files_list q st =
     (case next_fault st of
        (fault, st1) \<Rightarrow> if fault then (None, st1) else (Some (listing st1 q), st1))"

definition mem_files_create :: "resource \<Rightarrow> store \<Rightarrow> ident option \<times> store" where
  "mem_files_create res st =
     (case next_fault st of
        (fault, st1) \<Rightarrow>
          if fault then (None, st1)
          else
            (let i = mint (st_minted st1) in
             (Some i,
              (case res of
                 FolderMeta n parents \<Rightarrow>
                   st1\<lparr>st_folders := st_folders st1 @ [(i, n, parents)], st_minted := Suc (st_minted st1)\<rparr>
               | FileMedia n parents mimeType body \<Rightarrow>
                   st1\<lparr>st_files := st_files st1 @ [(i, res)], st_minted := Suc (st_minted st1)\<rparr>))))"

definition mem_files_update :: "ident \<Rightarrow> resource \<Rightarrow> store \<Rightarrow> ident option \<times> store" where
  "mem_files_update fileId res st =
     (case next_fault st of
        (fault, st1) \<Rightarrow>
          if fault \<or> fileId \<notin> fst ` set (st_files st1) then (None, st1)
          else
            (Some fileId,
             st1\<lparr>st_files := map (\<lambda>(i, r). if i = fileId then (i, res) else (i, r)) (st_files st1)\<rparr>))"

definition mem_saveData :: "store \<Rightarrow> bool \<times> store" where
  "mem_saveData st = (case next_fault st of (fault, st1) \<Rightarrow> (\<not> fault, st1))"

definition memDrive :: "store host" where
  "memDrive =
     \<lparr>getAccessToken = mem_getAccessToken,
      files_list = mem_files_list,
      files_create = mem_files_create,
      files_update = mem_files_update,
      saveData = mem_saveData\<rparr>"

section \<open>Observations on a run\<close>

subsection \<open>The trace\<close>

text \<open>What an operation added to the trace.\<close>

definition emitted :: "'r plugin \<Rightarrow> 'r plugin \<Rightarrow> event list" where
  "emitted s s' = drop (length (trace s)) (trace s')"

text \<open>The trace only grows.\<close>

definition grows :: "'r plugin \<Rightarrow> 'r plugin \<Rightarrow> bool" where
  "grows s s' = (\<exists>es. trace s' = trace s @ es)"

text \<open>An operation adds nothing to the trace that satisfies \<open>P\<close>.\<close>

definition silent :: "(event \<Rightarrow> bool) \<Rightarrow> 'r plugin \<Rightarrow> 'r plugin \<Rightarrow> bool" where
  "silent P s s' = (\<exists>es. trace s' = trace s @ es \<and> filter P es = [])"

text \<open>The requests among a list of events, in order.\<close>

fun requests :: "event list \<Rightarrow> call list" where
  "requests [] = []"
| "requests (Call c # es) = c # requests es"
| "requests (e # es) = requests es"

text \<open>The kinds of events the statements count.\<close>

fun isList :: "event \<Rightarrow> bool" where
  "isList (Call (FilesList q)) = True"
| "isList e = False"

fun isCreateFolder :: "event \<Rightarrow> bool" where
  "isCreateFolder (Call (FilesCreate (FolderMeta n ps))) = True"
| "isCreateFolder e = False"



fun isRead :: "event \<Rightarrow> bool" where
  "isRead (VaultRead p) = True"
| "isRead (VaultReadBinary p) = True"
| "isRead e = False"


text \<open>The collaborators reject a request in a given state of theirs.\<close>

definition rejects :: "'r host \<Rightarrow> call \<Rightarrow> 'r \<Rightarrow> bool" where
  "rejects h c w =
     (case c of
        GetAccessToken \<Rightarrow> \<not> fst (getAccessToken h w)
      | FilesList q \<Rightarrow> fst (files_list h q w) = None
      | FilesCreate res \<Rightarrow> fst (files_create h res w) = None
      | FilesUpdate fileId res \<Rightarrow> fst (files_update h fileId res w) = None
      | SaveData \<Rightarrow> \<not> fst (saveData h w))"

text \<open>A folder operation: a \<open>files.list\<close> query or a request to create a folder.\<close>

definition isFolderOp :: "call \<Rightarrow> bool" where
  "isFolderOp c =
     (case c of
        FilesList q \<Rightarrow> True
      | FilesCreate (FolderMeta n ps) \<Rightarrow> True
      | _ \<Rightarrow> False)"

text \<open>
  The state of the collaborators after a request, and after a sequence of requests
  sent in turn.
\<close>

definition answered :: "'r host \<Rightarrow> call \<Rightarrow> 'r \<Rightarrow> 'r" where
  "answered h c w =
     (case c of
        GetAccessToken \<Rightarrow> snd (getAccessToken h w)
      | FilesList q \<Rightarrow> snd (files_list h q w)
      | FilesCreate res \<Rightarrow> snd (files_create h res w)
      | FilesUpdate fileId res \<Rightarrow> snd (files_update h fileId res w)
      | SaveData \<Rightarrow> snd (saveData h w))"

fun replay :: "'r host \<Rightarrow> call list \<Rightarrow> 'r \<Rightarrow> 'r" where
  "replay h [] w = w"
| "replay h (c # cs) w = replay h cs (answered h c w)"

text \<open>
  Some folder operation among a sequence of requests, sent in turn to collaborators in
  the state \<open>w\<close>, is rejected.
\<close>

fun folderOpRejected :: "'r host \<Rightarrow> call list \<Rightarrow> 'r \<Rightarrow> bool" where
  "folderOpRejected h [] w = False"
| "folderOpRejected h (c # cs) w =
     ((isFolderOp c \<and> rejects h c w) \<or> folderOpRejected h cs (answered h c w))"

text \<open>
  An operation of the plugin, started in the state \<open>s\<close>, stops at a rejected folder
  operation: the requests it sent are all that happened to the collaborators, and when
  one of its folder operations was rejected, that request is the last thing the
  operation did, no folder operation before it was rejected, and the operation threw
  the error of that request.
\<close>

definition stopsAtRejection :: "'r host \<Rightarrow> 'r plugin \<Rightarrow> 'a result \<times> 'r plugin \<Rightarrow> bool" where
  "stopsAtRejection h s outcome =
     (grows s (snd outcome)
      \<and> world (snd outcome) = replay h (requests (emitted s (snd outcome))) (world s)
      \<and> (folderOpRejected h (requests (emitted s (snd outcome))) (world s) \<longrightarrow>
           (\<exists>es0 c. emitted s (snd outcome) = es0 @ [Call c]
                   \<and> isFolderOp c
                   \<and> rejects h c (replay h (requests es0) (world s))
                   \<and> \<not> folderOpRejected h (requests es0) (world s)
                   \<and> fst outcome = Threw (RemoteError c))))"

subsection \<open>Uploading one file\<close>

text \<open>
  What the change detector decided, as seen from outside \<open>uploadObsidianFile\<close>. The
  file is skipped when the call does nothing but log the skip.
\<close>

definition skipsFile :: "'r host \<Rightarrow> tfile \<Rightarrow> path \<Rightarrow> 'r plugin \<Rightarrow> bool" where
  "skipsFile h file currentPath s =
     (uploadObsidianFile h file currentPath s =
        (Ok (), emit (ConsoleLog (''Skipping '' @ path_join currentPath (tf_name file)
                                   @ '' - not modified since last sync'')) s))"

text \<open>The read \<open>uploadObsidianFile\<close> awaits: as text for text-like MIME types, else binary.\<close>

definition readContent :: "tfile \<Rightarrow> path \<Rightarrow> 'r plugin \<Rightarrow> content result \<times> 'r plugin" where
  "readContent file filePath s =
     (let mimeType = getMimeType (tf_extension file) in
      if startsWith mimeType ''text/'' \<or> mimeType = ''application/json''
      then vault_read file filePath s
      else vault_readBinary file filePath s)"

text \<open>The request \<open>uploadFile\<close> sends for a path once the parent folder is resolved.\<close>

definition uploadRequest :: "'r plugin \<Rightarrow> path \<Rightarrow> resource \<Rightarrow> call" where
  "uploadRequest s filePath media =
     (case truthyId (fileIds s filePath) of
        Some fileId \<Rightarrow> FilesUpdate fileId media
      | None \<Rightarrow> FilesCreate media)"

text \<open>What \<open>uploadObsidianFile\<close> does with the id \<open>uploadFile\<close> returns for a path.\<close>

definition recordsId :: "path \<Rightarrow> ident option result \<times> 'r plugin \<Rightarrow> unit result \<times> 'r plugin" where
  "recordsId filePath uploaded =
     (case uploaded of
        (Threw e, s2) \<Rightarrow> (Threw e, s2)
      | (Ok fileId, s2) \<Rightarrow>
          (case truthyId fileId of
             Some i \<Rightarrow> (Ok (), s2\<lparr>fileIds := (fileIds s2)(filePath \<mapsto> i)\<rparr>)
           | None \<Rightarrow> (Ok (), s2)))"

text \<open>
  The file is uploaded: the first thing the call does is read the file from the vault;
  a rejected read ends the call with the read error; what was read is handed to
  \<open>uploadFile\<close> under the file's path and MIME type, and the call ends as \<open>uploadFile\<close>
  does, with the id it returns recorded. In terms of what is sent: when the parent
  folder does not resolve the call ends with that error, and once it is resolved the
  one request that follows is the create or the update of the file, carrying its name,
  the resolved parent, the MIME type and the content read.
\<close>

definition uploadsFile :: "'r host \<Rightarrow> tfile \<Rightarrow> path \<Rightarrow> 'r plugin \<Rightarrow> bool" where
  "uploadsFile h file currentPath s =
     (let filePath = path_join currentPath (tf_name file);
          mimeType = getMimeType (tf_extension file);
          outcome = uploadObsidianFile h file currentPath s
      in (case emitted s (snd outcome) of
            [] \<Rightarrow> False
          | e # es \<Rightarrow> e \<in> {VaultRead filePath, VaultReadBinary filePath})
         \<and> (case readContent file filePath s of
               (Threw e, s1) \<Rightarrow> outcome = (Threw e, s1)
             | (Ok body, s1) \<Rightarrow>
                 outcome = recordsId filePath (uploadFile h filePath body mimeType s1)
                 \<and> (case ensureDriveFolder h (path_dirname filePath) s1 of
                       (Threw e, s2) \<Rightarrow> outcome = (Threw e, s2)
                     | (Ok parentId, s2) \<Rightarrow>
                         requests (emitted s2 (snd outcome)) =
                           [uploadRequest s filePath
                              (FileMedia (path_basename filePath) [parentId] mimeType body)])))"

subsection \<open>The folder-id cache\<close>

text \<open>The values \<open>currentPath\<close> takes in the loop of \<open>ensureDriveFolder\<close>, one per segment.\<close>

fun currentPaths :: "path \<Rightarrow> string list \<Rightarrow> path list" where
  "currentPaths currentPath [] = []"
| "currentPaths currentPath (part # parts) =
     path_join currentPath part # currentPaths (path_join currentPath part) parts"

text \<open>A path has a usable entry in the folder-id cache: the lookup is truthy.\<close>

definition cachedFolder :: "'r plugin \<Rightarrow> path \<Rightarrow> bool" where
  "cachedFolder s p = (truthyId (drivefolderIds s p) \<noteq> None)"

text \<open>The segments of a folder path whose \<open>currentPath\<close> has no usable cache entry.\<close>

definition uncachedSegments :: "'r plugin \<Rightarrow> path \<Rightarrow> nat" where
  "uncachedSegments s folderPath =
     length (filter (\<lambda>p. \<not> cachedFolder s p) (currentPaths [] (pathParts folderPath)))"


subsection \<open>A pass\<close>

text \<open>
  What a part of a pass may do to the plugin besides talking to its collaborators: the
  settings, the root folder id and the data file stay as they are, the trace grows, and
  an entry of \<open>fileIds\<close> is kept or set to a non-empty id.
\<close>

definition keeps :: "'r plugin \<Rightarrow> 'r plugin \<Rightarrow> bool" where
  "keeps s s' =
     (settings s' = settings s
      \<and> dataFile s' = dataFile s
      \<and> grows s s'
      \<and> (\<forall>p. fileIds s' p = fileIds s p \<or> (\<exists>i. fileIds s' p = Some i \<and> i \<noteq> [])))"

text \<open>
  The pass gets as far as the assignment to \<open>lastSyncTimestamp\<close>: the plugin is logged
  in and none of the three awaited steps before it throws.
\<close>

definition reachesAssignment :: "'r host \<Rightarrow> node list \<Rightarrow> 'r plugin \<Rightarrow> bool" where
  "reachesAssignment h rootFolder s =
     (googleDriveRefreshToken (settings s) \<noteq> []
      \<and> (case oauth_getAccessToken h s of
            (Threw e, s1) \<Rightarrow> False
          | (Ok u1, s1) \<Rightarrow>
              (case ensureObsidianFolder h
                      ((emit (Notice ''Syncing with Google Drive...'') s1)\<lparr>drivefolderIds := Map.empty\<rparr>) of
                 (Threw e, s2) \<Rightarrow> False
               | (Ok u2, s2) \<Rightarrow>
                   (case uploadVaultContents h rootFolder s2 of
                      (Threw e, s3) \<Rightarrow> False
                    | (Ok u3, s3) \<Rightarrow> True))))"

text \<open>The state in which the traversal of a pass starts, when the pass gets that far.\<close>

definition atTraversal :: "'r host \<Rightarrow> 'r plugin \<Rightarrow> 'r plugin" where
  "atTraversal h s =
     snd (ensureObsidianFolder h
            ((emit (Notice ''Syncing with Google Drive...'') (snd (oauth_getAccessToken h s)))
               \<lparr>drivefolderIds := Map.empty\<rparr>))"



subsection \<open>The vault's folders in the in-memory store\<close>




subsection \<open>Example vaults and installations\<close>

text \<open>A fresh installation on a store, logged in, and the empty fault-free store.\<close>

definition emptyStore :: store where
  "emptyStore = \<lparr>st_folders = [], st_files = [], st_minted = 0, st_faults = []\<rparr>"

definition freshPlugin :: "store \<Rightarrow> store plugin" where
  "freshPlugin st =
     \<lparr>settings = \<lparr>googleDriveClientId = ''client'', googleDriveClientSecret = ''secret'',
                  googleDriveRefreshToken = ''token'', lastSyncTimestamp = None,
                  otherProperties = []\<rparr>,
      obsidianFolderId = None,
      drivefolderIds = Map.empty,
      fileIds = Map.empty,
      dataFile = None,
      world = st,
      trace = []\<rparr>"

text \<open>A logged-in installation on the empty store whose last sync was at \<open>T\<close>.\<close>

definition syncedAt :: "int \<Rightarrow> store plugin" where
  "syncedAt T =
     (freshPlugin emptyStore)
       \<lparr>settings := (settings (freshPlugin emptyStore))\<lparr>lastSyncTimestamp := Some T\<rparr>\<rparr>"

text \<open>
  An installation before \<open>onload\<close>, on the empty store, whose data file holds the
  settings a login leaves there (\<open>exchangeCodeForTokens\<close> sets the refresh token and
  calls \<open>saveSettings\<close>).
\<close>

definition loggedInInstallation :: "store plugin" where
  "loggedInInstallation =
     (freshPlugin emptyStore)
       \<lparr>settings := DEFAULT_SETTINGS ''client'' ''secret'',
        dataFile := Some (SettingsData (settings (freshPlugin emptyStore)))\<rparr>"

text \<open>
  Two notes; a vault with the folder \<open>notes\<close> holding \<open>a.md\<close>, and the same vault
  followed by the note \<open>b.md\<close> at the top.
\<close>

definition noteA :: tfile where
  "noteA = \<lparr>tf_name = ''a.md'', tf_extension = ''md'', tf_mtime = 5, tf_data = Some ''hello''\<rparr>"

definition noteB :: tfile where
  "noteB = \<lparr>tf_name = ''b.md'', tf_extension = ''md'', tf_mtime = 7, tf_data = Some ''world''\<rparr>"

definition notesVault :: "node list" where
  "notesVault = [TFolder ''notes'' [TFile noteA]]"

definition twoItemVault :: "node list" where
  "twoItemVault = [TFolder ''notes'' [TFile noteA], TFile noteB]"

text \<open>
  A vault with a note at the top, then the folder \<open>notes\<close> holding the folder \<open>sub\<close> with
  a note in it and a second note; and a store whose seventh request is rejected: on a
  first pass over this vault, the list-children query for \<open>sub\<close>.
\<close>

definition nestedVault :: "node list" where
  "nestedVault = [TFile noteB, TFolder ''notes'' [TFolder ''sub'' [TFile noteA], TFile noteB]]"

definition nestedOutageStore :: store where
  "nestedOutageStore = emptyStore\<lparr>st_faults := [False, False, False, False, False, False, True]\<rparr>"

text \<open>
  An installation whose store rejects the next request, and a store whose fourth
  request (the first list-children query of a first pass) is rejected.
\<close>

definition faultyPlugin :: "store plugin" where
  "faultyPlugin = freshPlugin (emptyStore\<lparr>st_faults := [True]\<rparr>)"

definition outageStore :: store where
  "outageStore = emptyStore\<lparr>st_faults := [False, False, False, True]\<rparr>"

section \<open>Properties\<close>

subsection \<open>Frame lemmas: what each operation leaves alone\<close>

lemma grows_refl [simp]: "grows s s"
  by (simp add: grows_def)

lemma grows_trans: "grows s s1 \<Longrightarrow> grows s1 s2 \<Longrightarrow> grows s s2"
  by (auto simp: grows_def)

lemma grows_emit [simp]: "grows s (emit e s)"
  by (simp add: grows_def emit_def)

lemma grows_emit_right: "grows s s1 \<Longrightarrow> grows s (emit e s1)"
  by (auto simp: grows_def emit_def)

lemma emit_fields [simp]:
  "settings (emit e s) = settings s"
  "obsidianFolderId (emit e s) = obsidianFolderId s"
  "drivefolderIds (emit e s) = drivefolderIds s"
  "fileIds (emit e s) = fileIds s"
  "dataFile (emit e s) = dataFile s"
  "world (emit e s) = world s"
  "trace (emit e s) = trace s @ [e]"
  by (simp_all add: emit_def)

lemma list_frame:
  "drive_files_list h q s = (r, s') \<Longrightarrow>
     settings s' = settings s \<and> obsidianFolderId s' = obsidianFolderId s
     \<and> drivefolderIds s' = drivefolderIds s \<and> fileIds s' = fileIds s
     \<and> dataFile s' = dataFile s
     \<and> trace s' = trace s @ [Call (FilesList q)]"
  by (auto simp: drive_files_list_def split: prod.splits)

lemma create_frame:
  "drive_files_create h res s = (r, s') \<Longrightarrow>
     settings s' = settings s \<and> obsidianFolderId s' = obsidianFolderId s
     \<and> drivefolderIds s' = drivefolderIds s \<and> fileIds s' = fileIds s
     \<and> dataFile s' = dataFile s
     \<and> trace s' = trace s @ [Call (FilesCreate res)]"
  by (auto simp: drive_files_create_def split: prod.splits)

lemma update_frame:
  "drive_files_update h i res s = (r, s') \<Longrightarrow>
     settings s' = settings s \<and> obsidianFolderId s' = obsidianFolderId s
     \<and> drivefolderIds s' = drivefolderIds s \<and> fileIds s' = fileIds s
     \<and> dataFile s' = dataFile s
     \<and> trace s' = trace s @ [Call (FilesUpdate i res)]"
  by (auto simp: drive_files_update_def split: prod.splits)

lemma step_frame:
  "ensureDriveFolder_step h part cur pid s = (r, s') \<Longrightarrow>
     settings s' = settings s \<and> obsidianFolderId s' = obsidianFolderId s
     \<and> fileIds s' = fileIds s
     \<and> dataFile s' = dataFile s
     \<and> grows s s'"
  unfolding ensureDriveFolder_step_def
  by (auto simp: grows_def split: option.splits prod.splits result.splits list.splits
           dest!: list_frame create_frame)

lemma loop_frame:
  "ensureDriveFolder_loop h parts cur pid s = (r, s') \<Longrightarrow>
     settings s' = settings s \<and> obsidianFolderId s' = obsidianFolderId s
     \<and> fileIds s' = fileIds s
     \<and> dataFile s' = dataFile s
     \<and> grows s s'"
proof (induction parts arbitrary: cur pid s)
  case Nil
  then show ?case by simp
next
  case (Cons part parts)
  obtain r1 s1 where st: "ensureDriveFolder_step h part (path_join cur part) pid s = (r1, s1)"
    by (cases "ensureDriveFolder_step h part (path_join cur part) pid s")
  note f1 = step_frame[OF st]
  show ?case
  proof (cases r1)
    case (Threw e)
    with Cons.prems st have "s' = s1" by (simp add: Let_def)
    with f1 show ?thesis by simp
  next
    case (Ok i)
    with Cons.prems st have "ensureDriveFolder_loop h parts (path_join cur part) (Some i) s1 = (r, s')"
      by (simp add: Let_def)
    from Cons.IH[OF this] f1 show ?thesis
      by (auto intro: grows_trans)
  qed
qed

lemma ensureDriveFolder_frame:
  "ensureDriveFolder h p s = (r, s') \<Longrightarrow>
     settings s' = settings s \<and> obsidianFolderId s' = obsidianFolderId s
     \<and> fileIds s' = fileIds s
     \<and> dataFile s' = dataFile s
     \<and> grows s s'"
  unfolding ensureDriveFolder_def by (rule loop_frame)

lemma uploadFile_frame:
  "uploadFile h filePath body mimeType s = (r, s') \<Longrightarrow>
     settings s' = settings s \<and> obsidianFolderId s' = obsidianFolderId s
     \<and> fileIds s' = fileIds s
     \<and> dataFile s' = dataFile s
     \<and> grows s s'"
  unfolding uploadFile_def Let_def
  by (auto simp: grows_def split: option.splits prod.splits result.splits
           dest!: ensureDriveFolder_frame update_frame create_frame)

lemma emitted_emit [simp]: "emitted s (emit e s) = [e]"
  by (simp add: emitted_def)

subsection \<open>MIME classification\<close>

lemma lowerChar_idem: "lowerChar (lowerChar c) = lowerChar c"
  unfolding lowerChar_def
  by (auto split: option.splits)

lemma toLowerCase_idem: "toLowerCase (toLowerCase e) = toLowerCase e"
  by (simp add: toLowerCase_def lowerChar_idem)

text \<open>
  C9. \<open>getMimeType\<close> is a total function that depends on the extension only through
  its lower-cased form, its value is one of six strings, and each of the six is
  returned for exactly the extensions the table gives.
\<close>

theorem getMimeType_classification:
  "getMimeType e = getMimeType (toLowerCase e)
   \<and> getMimeType e \<in> {''text/markdown'', ''image/png'', ''image/jpeg'', ''image/gif'',
                        ''application/json'', ''application/octet-stream''}
   \<and> (getMimeType e = ''text/markdown'') = (toLowerCase e = ''md'')
   \<and> (getMimeType e = ''image/png'') = (toLowerCase e = ''png'')
   \<and> (getMimeType e = ''image/jpeg'') = (toLowerCase e = ''jpg'' \<or> toLowerCase e = ''jpeg'')
   \<and> (getMimeType e = ''image/gif'') = (toLowerCase e = ''gif'')
   \<and> (getMimeType e = ''application/json'') = (toLowerCase e = ''json'')
   \<and> (getMimeType e = ''application/octet-stream'') =
       (toLowerCase e \<notin> {''md'', ''png'', ''jpg'', ''jpeg'', ''gif'', ''json''})"
  by (simp add: getMimeType_def toLowerCase_idem Let_def)

subsection \<open>Uploading one file\<close>

lemma requests_append [simp]: "requests (xs @ ys) = requests xs @ requests ys"
  by (induction xs rule: requests.induct) auto

lemma emitted_self [simp]: "emitted s s = []"
  by (simp add: emitted_def)

lemma emitted_append: "trace s' = trace s @ es \<Longrightarrow> emitted s s' = es"
  by (simp add: emitted_def)

lemma uploadFile_after_resolution:
  assumes res: "ensureDriveFolder h (path_dirname filePath) s = (Ok parentId, s1)"
  shows "\<exists>r s2 line.
           uploadFile h filePath body mimeType s = (r, s2)
           \<and> trace s2 = trace s1 @ [Call (uploadRequest s filePath
                                       (FileMedia (path_basename filePath) [parentId] mimeType body)), line]
           \<and> fileIds s2 = fileIds s
           \<and> requests [line] = []
           \<and> (rejects h (uploadRequest s filePath
                 (FileMedia (path_basename filePath) [parentId] mimeType body)) (world s1)
               \<longrightarrow> r = Ok None \<and> line = ConsoleError (''Error uploading file '' @ filePath @ '':''))
           \<and> (\<not> rejects h (uploadRequest s filePath
                 (FileMedia (path_basename filePath) [parentId] mimeType body)) (world s1)
               \<longrightarrow> (\<exists>i. r = Ok (Some i)))"
proof -
  have f: "fileIds s1 = fileIds s"
    using ensureDriveFolder_frame[OF res] by simp
  show ?thesis
    unfolding uploadFile_def Let_def res uploadRequest_def rejects_def
    by (auto simp: f drive_files_update_def drive_files_create_def
             split: option.splits prod.splits)
qed


lemma uploadFile_folder_throws:
  assumes "fst (ensureDriveFolder h (path_dirname fp) s) = Threw e"
  shows "uploadFile h fp body mt s = (Threw e, snd (ensureDriveFolder h (path_dirname fp) s))"
  using assms
  by (cases "ensureDriveFolder h (path_dirname fp) s") (simp add: uploadFile_def Let_def)

lemma uploadObsidianFile_unfold:
  "uploadObsidianFile h tf cp s =
     (if (case lastSyncTimestamp (settings s) of None \<Rightarrow> False | Some t \<Rightarrow> tf_mtime tf \<le> t)
      then (Ok (), emit (ConsoleLog (''Skipping '' @ path_join cp (tf_name tf)
                                      @ '' - not modified since last sync'')) s)
      else
        (case readContent tf (path_join cp (tf_name tf)) s of
           (Threw e, s1) \<Rightarrow> (Threw e, s1)
         | (Ok body, s1) \<Rightarrow>
             (case uploadFile h (path_join cp (tf_name tf)) body (getMimeType (tf_extension tf)) s1 of
                (Threw e, s2) \<Rightarrow> (Threw e, s2)
              | (Ok fileId, s2) \<Rightarrow>
                  (case truthyId fileId of
                     Some i \<Rightarrow> (Ok (), s2\<lparr>fileIds := (fileIds s2)(path_join cp (tf_name tf) \<mapsto> i)\<rparr>)
                   | None \<Rightarrow> (Ok (), s2)))))"
  by (simp add: uploadObsidianFile_def readContent_def Let_def)

lemma readContent_frame:
  "readContent tf fp s = (r, s1) \<Longrightarrow>
     settings s1 = settings s \<and> obsidianFolderId s1 = obsidianFolderId s
     \<and> drivefolderIds s1 = drivefolderIds s \<and> fileIds s1 = fileIds s
     \<and> dataFile s1 = dataFile s
     \<and> world s1 = world s
     \<and> (trace s1 = trace s @ [VaultRead fp] \<or> trace s1 = trace s @ [VaultReadBinary fp])"
  by (auto simp: readContent_def vault_read_def vault_readBinary_def Let_def split: if_splits)

text \<open>
  C4. A file that is not skipped and can be read, whose parent folder resolves, and whose
  create or update request is rejected: \<open>uploadFile\<close> returns \<open>null\<close> and its last
  action is the error line on the console, \<open>uploadObsidianFile\<close> returns normally,
  \<open>fileIds\<close> is what it was before the attempt, and the traversal goes on with the
  items that follow.
\<close>

theorem failed_upload_is_contained:
  assumes go: "case lastSyncTimestamp (settings s) of None \<Rightarrow> True | Some T \<Rightarrow> T < tf_mtime tf"
    and fp: "fp = path_join cp (tf_name tf)"
    and mt: "mt = getMimeType (tf_extension tf)"
    and rd: "readContent tf fp s = (Ok body, s0)"
    and res: "ensureDriveFolder h (path_dirname fp) s0 = (Ok parentId, s1)"
    and rej: "rejects h (uploadRequest s fp (FileMedia (path_basename fp) [parentId] mt body)) (world s1)"
  shows "\<exists>s2. uploadFile h fp body mt s0 = (Ok None, s2)
              \<and> last (trace s2) = ConsoleError (''Error uploading file '' @ fp @ '':'')
              \<and> uploadObsidianFile h tf cp s = (Ok (), s2)
              \<and> fileIds s2 = fileIds s
              \<and> uploadFolderContents h (TFile tf # items) cp s = uploadFolderContents h items cp s2"
proof -
  have f0: "fileIds s0 = fileIds s"
    using readContent_frame[OF rd] by simp
  then have req: "uploadRequest s0 fp = uploadRequest s fp"
    by (simp add: uploadRequest_def fun_eq_iff)
  from uploadFile_after_resolution[OF res, of body mt] rej req
  obtain s2 where up: "uploadFile h fp body mt s0 = (Ok None, s2)"
    and tr: "trace s2 = trace s1 @ [Call (uploadRequest s fp (FileMedia (path_basename fp) [parentId] mt body)),
                                    ConsoleError (''Error uploading file '' @ fp @ '':'')]"
    and f2: "fileIds s2 = fileIds s0"
    by auto
  have nskip: "\<not> (case lastSyncTimestamp (settings s) of None \<Rightarrow> False | Some t \<Rightarrow> tf_mtime tf \<le> t)"
    using go by (auto split: option.splits)
  have uo: "uploadObsidianFile h tf cp s = (Ok (), s2)"
    using nskip rd up
    by (simp add: uploadObsidianFile_unfold fp[symmetric] mt[symmetric] truthyId_def)
  have "uploadFolderContents h (TFile tf # items) cp s = uploadFolderContents h items cp s2"
    by (simp add: uo)
  with up tr uo f2 f0 show ?thesis by simp
qed

lemma noteA_read:
  "readContent noteA ''/a.md'' faultyPlugin = (Ok (Text ''hello''), emit (VaultRead ''/a.md'') faultyPlugin)"
  by (simp add: readContent_def noteA_def getMimeType_def toLowerCase_def lowerChar_def
        startsWith_def vault_read_def Let_def)

lemma root_dirname: "path_dirname ''/a.md'' = ''/''"
  by (simp add: path_dirname_def slash_def)

lemma root_parts: "pathParts ''/'' = []"
  by (simp add: pathParts_def slash_def)

lemma root_join: "path_join ''/'' ''a.md'' = ''/a.md''"
  by (simp add: path_join_def path_normalize_def normalizeString_def slash_def)

text \<open>
  The hypotheses of C4 are met by the note \<open>a.md\<close> at the top of the vault, on a fresh
  installation whose store rejects the next request, the create-file request.
\<close>

theorem failed_upload_is_contained_witness:
  "(case lastSyncTimestamp (settings faultyPlugin) of None \<Rightarrow> True | Some T \<Rightarrow> T < tf_mtime noteA)
   \<and> readContent noteA ''/a.md'' faultyPlugin = (Ok (Text ''hello''), emit (VaultRead ''/a.md'') faultyPlugin)
   \<and> ensureDriveFolder memDrive (path_dirname ''/a.md'') (emit (VaultRead ''/a.md'') faultyPlugin)
       = (Ok None, emit (VaultRead ''/a.md'') faultyPlugin)
   \<and> rejects memDrive
        (uploadRequest faultyPlugin ''/a.md'' (FileMedia (path_basename ''/a.md'') [None] ''text/markdown'' (Text ''hello'')))
        (world (emit (VaultRead ''/a.md'') faultyPlugin))
   \<and> (\<exists>s2. uploadFile memDrive ''/a.md'' (Text ''hello'') ''text/markdown'' (emit (VaultRead ''/a.md'') faultyPlugin)
               = (Ok None, s2)
            \<and> last (trace s2) = ConsoleError (''Error uploading file '' @ ''/a.md'' @ '':'')
            \<and> uploadObsidianFile memDrive noteA ''/'' faultyPlugin = (Ok (), s2)
            \<and> fileIds s2 = fileIds faultyPlugin
            \<and> uploadFolderContents memDrive [TFile noteA] ''/'' faultyPlugin
                = uploadFolderContents memDrive [] ''/'' s2)"
proof -
  have go: "case lastSyncTimestamp (settings faultyPlugin) of None \<Rightarrow> True | Some T \<Rightarrow> T < tf_mtime noteA"
    by (simp add: faultyPlugin_def freshPlugin_def)
  have fp: "''/a.md'' = path_join ''/'' (tf_name noteA)"
    by (simp add: noteA_def root_join)
  have mt: "''text/markdown'' = getMimeType (tf_extension noteA)"
    by (simp add: noteA_def getMimeType_def toLowerCase_def lowerChar_def)
  note rd = noteA_read
  have res: "ensureDriveFolder memDrive (path_dirname ''/a.md'') (emit (VaultRead ''/a.md'') faultyPlugin)
       = (Ok None, emit (VaultRead ''/a.md'') faultyPlugin)"
    by (simp add: root_dirname root_parts ensureDriveFolder_def faultyPlugin_def freshPlugin_def)
  have rej: "rejects memDrive
        (uploadRequest faultyPlugin ''/a.md'' (FileMedia (path_basename ''/a.md'') [None] ''text/markdown'' (Text ''hello'')))
        (world (emit (VaultRead ''/a.md'') faultyPlugin))"
    by (simp add: rejects_def uploadRequest_def faultyPlugin_def freshPlugin_def truthyId_def
          memDrive_def mem_files_create_def next_fault_def emptyStore_def)
  from failed_upload_is_contained[OF go fp mt rd res rej, of "[]"] go rd res rej
  show ?thesis by blast
qed

lemma uploadObsidianFile_frame:
  "uploadObsidianFile h tf cp s = (r, s') \<Longrightarrow>
     settings s' = settings s \<and> obsidianFolderId s' = obsidianFolderId s
     \<and> dataFile s' = dataFile s
     \<and> grows s s'
     \<and> (\<forall>p. fileIds s' p = fileIds s p \<or> (\<exists>i. fileIds s' p = Some i \<and> i \<noteq> []))"
  unfolding uploadObsidianFile_unfold
  by (auto simp: truthyId_def grows_def
           split: if_splits option.splits prod.splits result.splits
           dest!: readContent_frame uploadFile_frame)

lemma upload_request_sent:
  assumes res: "ensureDriveFolder h (path_dirname fp) s = (Ok parentId, s1)"
  shows "requests (emitted s1 (snd (uploadFile h fp body mt s))) =
        [case truthyId (fileIds s fp) of
           Some fileId \<Rightarrow> FilesUpdate fileId (FileMedia (path_basename fp) [parentId] mt body)
         | None \<Rightarrow> FilesCreate (FileMedia (path_basename fp) [parentId] mt body)]"
  using uploadFile_after_resolution[OF res, of body mt]
  by (auto simp: emitted_def uploadRequest_def split: option.splits)

lemma upload_records_id:
  assumes go: "case lastSyncTimestamp (settings sa) of None \<Rightarrow> True | Some T \<Rightarrow> T < tf_mtime tf"
    and rd: "readContent tf (path_join cp (tf_name tf)) sa = (Ok body0, sb)"
    and up: "uploadFile h (path_join cp (tf_name tf)) body0 (getMimeType (tf_extension tf)) sb = (Ok (Some i), sc)"
    and ne: "i \<noteq> []"
  shows "uploadObsidianFile h tf cp sa = (Ok (), sc\<lparr>fileIds := (fileIds sc)(path_join cp (tf_name tf) \<mapsto> i)\<rparr>)"
proof -
  have "\<not> (case lastSyncTimestamp (settings sa) of None \<Rightarrow> False | Some t \<Rightarrow> tf_mtime tf \<le> t)"
    using go by (auto split: option.splits)
  then show ?thesis
    using rd up ne by (simp add: uploadObsidianFile_unfold truthyId_def)
qed

text \<open>
  C6. Once the parent folder of a path is resolved, \<open>uploadFile\<close> sends exactly one
  request: an update against the id that \<open>fileIds\<close> holds for the path when it holds
  one, a create under the resolved parent otherwise. And a round trip: when a first
  upload of a file got the id \<open>i\<close> and \<open>uploadObsidianFile\<close> recorded it, uploading
  the path again with another body sends an update against \<open>i\<close> and no create.
\<close>

theorem upload_updates_recorded_id:
  "(ensureDriveFolder h (path_dirname fp) s = (Ok parentId, s1) \<longrightarrow>
      requests (emitted s1 (snd (uploadFile h fp body mt s))) =
        [case truthyId (fileIds s fp) of
           Some fileId \<Rightarrow> FilesUpdate fileId (FileMedia (path_basename fp) [parentId] mt body)
         | None \<Rightarrow> FilesCreate (FileMedia (path_basename fp) [parentId] mt body)])
   \<and> ((case lastSyncTimestamp (settings sa) of None \<Rightarrow> True | Some T \<Rightarrow> T < tf_mtime tf)
        \<and> fp = path_join cp (tf_name tf)
        \<and> readContent tf fp sa = (Ok body0, sb)
        \<and> uploadFile h fp body0 (getMimeType (tf_extension tf)) sb = (Ok (Some i), sc)
        \<and> i \<noteq> []
        \<and> uploadObsidianFile h tf cp sa = (r, sd)
        \<and> ensureDriveFolder h (path_dirname fp) sd = (Ok parentId', se) \<longrightarrow>
      r = Ok () \<and> fileIds sd fp = Some i
      \<and> requests (emitted se (snd (uploadFile h fp body' mt' sd))) =
          [FilesUpdate i (FileMedia (path_basename fp) [parentId'] mt' body')])"
proof -
  have one: "ensureDriveFolder h (path_dirname fp) s = (Ok parentId, s1) \<longrightarrow>
      requests (emitted s1 (snd (uploadFile h fp body mt s))) =
        [case truthyId (fileIds s fp) of
           Some fileId \<Rightarrow> FilesUpdate fileId (FileMedia (path_basename fp) [parentId] mt body)
         | None \<Rightarrow> FilesCreate (FileMedia (path_basename fp) [parentId] mt body)]"
    using upload_request_sent by blast
  have two: "r = Ok () \<and> fileIds sd fp = Some i
      \<and> requests (emitted se (snd (uploadFile h fp body' mt' sd))) =
          [FilesUpdate i (FileMedia (path_basename fp) [parentId'] mt' body')]"
    if go: "case lastSyncTimestamp (settings sa) of None \<Rightarrow> True | Some T \<Rightarrow> T < tf_mtime tf"
      and fp: "fp = path_join cp (tf_name tf)"
      and rd: "readContent tf fp sa = (Ok body0, sb)"
      and up: "uploadFile h fp body0 (getMimeType (tf_extension tf)) sb = (Ok (Some i), sc)"
      and ne: "i \<noteq> []"
      and uo: "uploadObsidianFile h tf cp sa = (r, sd)"
      and res: "ensureDriveFolder h (path_dirname fp) sd = (Ok parentId', se)"
  proof -
    from upload_records_id[OF go rd[unfolded fp] up[unfolded fp] ne] uo
    have rec: "r = Ok ()" "sd = sc\<lparr>fileIds := (fileIds sc)(fp \<mapsto> i)\<rparr>"
      by (simp_all add: fp)
    then have cur: "fileIds sd fp = Some i" by simp
    then have "truthyId (fileIds sd fp) = Some i"
      using ne by (simp add: truthyId_def)
    with upload_request_sent[OF res, of body' mt'] rec(1) cur show ?thesis by simp
  qed
  from one two show ?thesis by blast
qed

lemma pair_snd_eq: "(p = (a, snd p)) = (fst p = a)"
  by (cases p) auto

lemma noteA_fields [simp]:
  "tf_name noteA = ''a.md''" "tf_extension noteA = ''md''"
  "tf_mtime noteA = 5" "tf_data noteA = Some ''hello''"
  by (simp_all add: noteA_def)

lemma md_mime [simp]: "getMimeType ''md'' = ''text/markdown''"
  by (simp add: getMimeType_def toLowerCase_def lowerChar_def)

lemma noteA_read_any:
  "readContent noteA fp s = (Ok (Text ''hello''), emit (VaultRead fp) s)"
  by (simp add: readContent_def startsWith_def vault_read_def Let_def)

lemma noteA_first_upload:
  "fst (uploadFile memDrive ''/a.md'' (Text ''hello'') ''text/markdown''
          (emit (VaultRead ''/a.md'') (freshPlugin emptyStore))) = Ok (Some ''id'')"
  by (simp add: uploadFile_def root_dirname root_parts ensureDriveFolder_def freshPlugin_def
        truthyId_def drive_files_create_def memDrive_def mem_files_create_def next_fault_def
        emptyStore_def mint_def Let_def)

text \<open>
  The hypotheses of C6 are met by the note \<open>a.md\<close> at the top of the vault on a fresh
  installation: the first upload creates the file and records \<open>id\<close>, the second
  updates \<open>id\<close>.
\<close>

theorem upload_updates_recorded_id_witness:
  "ensureDriveFolder memDrive (path_dirname ''/a.md'') (freshPlugin emptyStore)
     = (Ok None, freshPlugin emptyStore)
   \<and> requests (emitted (freshPlugin emptyStore)
                 (snd (uploadFile memDrive ''/a.md'' (Text ''hello'') ''text/markdown'' (freshPlugin emptyStore))))
       = [FilesCreate (FileMedia ''a.md'' [None] ''text/markdown'' (Text ''hello''))]
   \<and> fst (uploadObsidianFile memDrive noteA ''/'' (freshPlugin emptyStore)) = Ok ()
   \<and> fileIds (snd (uploadObsidianFile memDrive noteA ''/'' (freshPlugin emptyStore))) ''/a.md'' = Some ''id''
   \<and> requests (emitted (snd (uploadObsidianFile memDrive noteA ''/'' (freshPlugin emptyStore)))
                 (snd (uploadFile memDrive ''/a.md'' (Text ''changed'') ''text/markdown''
                        (snd (uploadObsidianFile memDrive noteA ''/'' (freshPlugin emptyStore))))))
       = [FilesUpdate ''id'' (FileMedia ''a.md'' [None] ''text/markdown'' (Text ''changed''))]"
proof -
  let ?s = "freshPlugin emptyStore"
  let ?sd = "snd (uploadObsidianFile memDrive noteA ''/'' ?s)"
  have res: "ensureDriveFolder memDrive (path_dirname ''/a.md'') ?s = (Ok None, ?s)"
    by (simp add: root_dirname root_parts ensureDriveFolder_def freshPlugin_def)
  have go: "case lastSyncTimestamp (settings ?s) of None \<Rightarrow> True | Some T \<Rightarrow> T < tf_mtime noteA"
    by (simp add: freshPlugin_def)
  have fp: "''/a.md'' = path_join ''/'' (tf_name noteA)"
    by (simp add: root_join)
  have up: "uploadFile memDrive ''/a.md'' (Text ''hello'') (getMimeType (tf_extension noteA))
              (emit (VaultRead ''/a.md'') ?s)
            = (Ok (Some ''id''),
               snd (uploadFile memDrive ''/a.md'' (Text ''hello'') (getMimeType (tf_extension noteA))
                      (emit (VaultRead ''/a.md'') ?s)))"
    by (simp add: pair_snd_eq noteA_first_upload)
  have ne: "''id'' \<noteq> []" by simp
  have uo: "uploadObsidianFile memDrive noteA ''/'' ?s
              = (fst (uploadObsidianFile memDrive noteA ''/'' ?s), ?sd)"
    by simp
  have res2: "ensureDriveFolder memDrive (path_dirname ''/a.md'') ?sd = (Ok None, ?sd)"
  proof -
    have "obsidianFolderId ?sd = obsidianFolderId ?s"
      using uploadObsidianFile_frame[OF uo] by simp
    then have "obsidianFolderId ?sd = None"
      by (simp add: freshPlugin_def)
    then show ?thesis
      by (simp add: root_dirname root_parts ensureDriveFolder_def)
  qed
  have bn: "path_basename ''/a.md'' = ''a.md''"
    by (simp add: path_basename_def slash_def)
  have tr: "truthyId (fileIds ?s ''/a.md'') = None"
    by (simp add: freshPlugin_def truthyId_def)
  note inst = upload_updates_recorded_id[where h=memDrive and fp="''/a.md''" and s="?s"
      and parentId=None and ?s1.0="?s" and body="Text ''hello''" and mt="''text/markdown''"
      and sa="?s" and tf=noteA and cp="''/''" and ?body0.0="Text ''hello''"
      and sb="emit (VaultRead ''/a.md'') ?s" and i="''id''"
      and sc="snd (uploadFile memDrive ''/a.md'' (Text ''hello'') (getMimeType (tf_extension noteA))
                      (emit (VaultRead ''/a.md'') ?s))"
      and r="fst (uploadObsidianFile memDrive noteA ''/'' ?s)" and sd="?sd"
      and parentId'=None and se="?sd" and body'="Text ''changed''" and mt'="''text/markdown''"]
  from inst res go noteA_read_any[of "''/a.md''" ?s] up ne uo res2
  show ?thesis
    by (simp add: bn tr root_join)
qed

subsection \<open>The change detector\<close>

lemma upload_taken:
  assumes go: "\<not> (case lastSyncTimestamp (settings s) of None \<Rightarrow> False | Some t \<Rightarrow> tf_mtime tf \<le> t)"
  shows "uploadsFile h tf cp s"
proof -
  let ?fp = "path_join cp (tf_name tf)"
  let ?mt = "getMimeType (tf_extension tf)"
  obtain r1 s1 where rd: "readContent tf ?fp s = (r1, s1)"
    by (cases "readContent tf ?fp s")
  note f1 = readContent_frame[OF rd]
  obtain r s' where out: "uploadObsidianFile h tf cp s = (r, s')"
    by (cases "uploadObsidianFile h tf cp s")
  have unf: "(r, s') = (case r1 of
                          Threw e \<Rightarrow> (Threw e, s1)
                        | Ok body \<Rightarrow> recordsId ?fp (uploadFile h ?fp body ?mt s1))"
    using go rd out
    by (simp add: uploadObsidianFile_unfold recordsId_def split: result.splits)
  have g1: "grows s1 s'"
  proof (cases r1)
    case (Threw e)
    with unf show ?thesis by simp
  next
    case (Ok body)
    obtain ru su where up: "uploadFile h ?fp body ?mt s1 = (ru, su)"
      by (cases "uploadFile h ?fp body ?mt s1")
    from uploadFile_frame[OF up] have "grows s1 su" by simp
    moreover have "trace s' = trace su"
      using unf Ok up by (auto simp: recordsId_def split: result.splits option.splits)
    ultimately show ?thesis by (simp add: grows_def)
  qed
  then obtain es where "trace s' = trace s1 @ es" by (auto simp: grows_def)
  with f1 have "emitted s s' = VaultRead ?fp # es \<or> emitted s s' = VaultReadBinary ?fp # es"
    by (auto simp: emitted_def)
  then have first: "case emitted s s' of
                      [] \<Rightarrow> False
                    | e # es \<Rightarrow> e \<in> {VaultRead ?fp, VaultReadBinary ?fp}"
    by auto
  have rest: "case readContent tf ?fp s of
               (Threw e, s1) \<Rightarrow> (r, s') = (Threw e, s1)
             | (Ok body, s1) \<Rightarrow>
                 (r, s') = recordsId ?fp (uploadFile h ?fp body ?mt s1)
                 \<and> (case ensureDriveFolder h (path_dirname ?fp) s1 of
                       (Threw e, s2) \<Rightarrow> (r, s') = (Threw e, s2)
                     | (Ok parentId, s2) \<Rightarrow>
                         requests (emitted s2 (snd (r, s'))) =
                           [uploadRequest s ?fp (FileMedia (path_basename ?fp) [parentId] ?mt body)])"
  proof (cases r1)
    case (Threw e)
    with unf rd show ?thesis by simp
  next
    case (Ok body)
    have same: "uploadRequest s1 ?fp = uploadRequest s ?fp"
      using f1 by (simp add: uploadRequest_def fun_eq_iff)
    obtain rf s2 where res: "ensureDriveFolder h (path_dirname ?fp) s1 = (rf, s2)"
      by (cases "ensureDriveFolder h (path_dirname ?fp) s1")
    have "case (rf, s2) of
            (Threw e, s2) \<Rightarrow> (r, s') = (Threw e, s2)
          | (Ok parentId, s2) \<Rightarrow>
              requests (emitted s2 s') =
                [uploadRequest s ?fp (FileMedia (path_basename ?fp) [parentId] ?mt body)]"
    proof (cases rf)
      case (Threw e)
      with res have "uploadFile h ?fp body ?mt s1 = (Threw e, s2)"
        using uploadFile_folder_throws[of h ?fp s1 e body ?mt] by simp
      with unf Ok Threw show ?thesis by (simp add: recordsId_def)
    next
      case ok: (Ok parentId)
      from uploadFile_after_resolution[OF res[unfolded ok], of body ?mt]
      obtain ru su line where up: "uploadFile h ?fp body ?mt s1 = (ru, su)"
        and tr: "trace su = trace s2 @ [Call (uploadRequest s1 ?fp
                                          (FileMedia (path_basename ?fp) [parentId] ?mt body)), line]"
        and ln: "requests [line] = []"
        by blast
      have "trace s' = trace su"
        using unf Ok up by (auto simp: recordsId_def split: result.splits option.splits)
      with tr ln same ok show ?thesis
        by (simp add: emitted_def)
    qed
    moreover have "recordsId ?fp (uploadFile h ?fp body ?mt s1) = (r, s')"
      using unf Ok by simp
    ultimately show ?thesis
      using Ok rd res by (cases rf) simp_all
  qed
  from first rest show ?thesis
    unfolding uploadsFile_def Let_def out by simp
qed

lemma not_skip:
  assumes "\<not> (case lastSyncTimestamp (settings s) of None \<Rightarrow> False | Some t \<Rightarrow> tf_mtime tf \<le> t)"
  shows "\<not> skipsFile h tf cp s"
proof
  assume sk: "skipsFile h tf cp s"
  have "uploadsFile h tf cp s" using assms by (rule upload_taken)
  with sk show False
    unfolding skipsFile_def uploadsFile_def Let_def by simp
qed

lemma skip_taken:
  assumes "(case lastSyncTimestamp (settings s) of None \<Rightarrow> False | Some t \<Rightarrow> tf_mtime tf \<le> t)"
  shows "skipsFile h tf cp s \<and> \<not> uploadsFile h tf cp s"
  using assms unfolding skipsFile_def uploadsFile_def uploadObsidianFile_def Let_def
  by simp

text \<open>
  C1. With no \<open>lastSyncTimestamp\<close> the file is uploaded whatever its modification
  time; with \<open>lastSyncTimestamp = T\<close> it is uploaded exactly when \<open>T < mtime\<close> and
  skipped exactly when \<open>mtime \<le> T\<close>. In particular a file modified at \<open>T\<close> is skipped
  and a file modified at \<open>T + 1\<close> is uploaded. Uploaded means that the file is read and
  what was read goes to \<open>uploadFile\<close>, which sends the create or update request for it
  once the parent folder is resolved; skipped means that nothing happens but the line
  on the console.
\<close>

theorem change_detector_policy:
  "(case lastSyncTimestamp (settings s) of
      None \<Rightarrow> uploadsFile h tf cp s \<and> \<not> skipsFile h tf cp s
    | Some T \<Rightarrow>
        uploadsFile h tf cp s = (T < tf_mtime tf)
        \<and> skipsFile h tf cp s = (tf_mtime tf \<le> T))
   \<and> skipsFile h (tf\<lparr>tf_mtime := T0\<rparr>) cp
        (s\<lparr>settings := (settings s)\<lparr>lastSyncTimestamp := Some T0\<rparr>\<rparr>)
   \<and> uploadsFile h (tf\<lparr>tf_mtime := T0 + 1\<rparr>) cp
        (s\<lparr>settings := (settings s)\<lparr>lastSyncTimestamp := Some T0\<rparr>\<rparr>)"
proof (intro conjI)
  show "case lastSyncTimestamp (settings s) of
      None \<Rightarrow> uploadsFile h tf cp s \<and> \<not> skipsFile h tf cp s
    | Some T \<Rightarrow>
        uploadsFile h tf cp s = (T < tf_mtime tf)
        \<and> skipsFile h tf cp s = (tf_mtime tf \<le> T)"
  proof (cases "lastSyncTimestamp (settings s)")
    case None
    then show ?thesis
      using upload_taken[where s=s and h=h and cp=cp and tf=tf]
        not_skip[where s=s and h=h and cp=cp and tf=tf] by simp
  next
    case (Some T)
    show ?thesis
    proof (cases "tf_mtime tf \<le> T")
      case True
      with Some skip_taken[where s=s and h=h and cp=cp and tf=tf] show ?thesis by auto
    next
      case False
      with Some upload_taken[where s=s and h=h and cp=cp and tf=tf]
        not_skip[where s=s and h=h and cp=cp and tf=tf] show ?thesis by auto
    qed
  qed
  show "skipsFile h (tf\<lparr>tf_mtime := T0\<rparr>) cp
        (s\<lparr>settings := (settings s)\<lparr>lastSyncTimestamp := Some T0\<rparr>\<rparr>)"
    by (rule skip_taken[THEN conjunct1]) simp
  show "uploadsFile h (tf\<lparr>tf_mtime := T0 + 1\<rparr>) cp
        (s\<lparr>settings := (settings s)\<lparr>lastSyncTimestamp := Some T0\<rparr>\<rparr>)"
    by (rule upload_taken) simp
qed

text \<open>
  The statement of C1 at the note \<open>a.md\<close>, modified at \<open>5\<close>, at the top of the vault of
  an installation on the empty store. Last synced at \<open>4\<close>, the note is read and a
  create request carrying its content is sent, and the new id is recorded; last synced
  at \<open>5\<close>, nothing is read or sent.
\<close>

theorem change_detector_policy_witness:
  "uploadsFile memDrive noteA ''/'' (syncedAt 4)
   \<and> \<not> skipsFile memDrive noteA ''/'' (syncedAt 4)
   \<and> emitted (syncedAt 4) (snd (uploadObsidianFile memDrive noteA ''/'' (syncedAt 4)))
       = [VaultRead ''/a.md'',
          Call (FilesCreate (FileMedia ''a.md'' [None] ''text/markdown'' (Text ''hello''))),
          ConsoleLog ''File created: /a.md, ID: id'']
   \<and> fileIds (snd (uploadObsidianFile memDrive noteA ''/'' (syncedAt 4))) ''/a.md'' = Some ''id''
   \<and> skipsFile memDrive noteA ''/'' (syncedAt 5)
   \<and> \<not> uploadsFile memDrive noteA ''/'' (syncedAt 5)
   \<and> emitted (syncedAt 5) (snd (uploadObsidianFile memDrive noteA ''/'' (syncedAt 5)))
       = [ConsoleLog ''Skipping /a.md - not modified since last sync'']"
proof -
  have t4: "lastSyncTimestamp (settings (syncedAt 4)) = Some 4"
    and t5: "lastSyncTimestamp (settings (syncedAt 5)) = Some 5"
    by (simp_all add: syncedAt_def)
  have run4: "emitted (syncedAt 4) (snd (uploadObsidianFile memDrive noteA ''/'' (syncedAt 4)))
       = [VaultRead ''/a.md'',
          Call (FilesCreate (FileMedia ''a.md'' [None] ''text/markdown'' (Text ''hello''))),
          ConsoleLog ''File created: /a.md, ID: id'']"
    by code_simp
  have id4: "fileIds (snd (uploadObsidianFile memDrive noteA ''/'' (syncedAt 4))) ''/a.md'' = Some ''id''"
    by code_simp
  have run5: "emitted (syncedAt 5) (snd (uploadObsidianFile memDrive noteA ''/'' (syncedAt 5)))
       = [ConsoleLog ''Skipping /a.md - not modified since last sync'']"
    by code_simp
  from change_detector_policy[where s="syncedAt 4" and h=memDrive and tf=noteA and cp="''/''"]
    change_detector_policy[where s="syncedAt 5" and h=memDrive and tf=noteA and cp="''/''"]
    t4 t5 run4 id4 run5
  show ?thesis by simp
qed

subsection \<open>Resolving a folder path\<close>

lemma step_requests:
  assumes "ensureDriveFolder_step h part cp pid s = (r, s1)"
  shows "\<exists>es. trace s1 = trace s @ es
              \<and> (cachedFolder s cp \<longrightarrow> es = [])
              \<and> length (filter isList es) \<le> 1
              \<and> length (filter isCreateFolder es) \<le> 1
              \<and> length es = length (filter isList es) + length (filter isCreateFolder es)
              \<and> (\<forall>p. cachedFolder s p \<longrightarrow> cachedFolder s1 p)"
  using assms unfolding ensureDriveFolder_step_def cachedFolder_def
  by (auto simp: truthyId_def
           split: option.splits prod.splits result.splits list.splits if_splits
           dest!: list_frame create_frame)

lemma filter_mono_length:
  "(\<And>x. P x \<Longrightarrow> Q x) \<Longrightarrow> length (filter P xs) \<le> length (filter Q xs)"
  by (induction xs) auto

lemma loop_requests:
  "ensureDriveFolder_loop h parts cur pid s = (r, s') \<Longrightarrow>
     \<exists>es. trace s' = trace s @ es
          \<and> length (filter isList es)
               \<le> length (filter (\<lambda>p. \<not> cachedFolder s p) (currentPaths cur parts))
          \<and> length (filter isCreateFolder es)
               \<le> length (filter (\<lambda>p. \<not> cachedFolder s p) (currentPaths cur parts))
          \<and> length es = length (filter isList es) + length (filter isCreateFolder es)"
proof (induction parts arbitrary: cur pid s)
  case Nil
  then show ?case by simp
next
  case (Cons part parts)
  let ?cp = "path_join cur part"
  obtain r1 s1 where st: "ensureDriveFolder_step h part ?cp pid s = (r1, s1)"
    by (cases "ensureDriveFolder_step h part ?cp pid s")
  from step_requests[OF st] obtain es1 where
    t1: "trace s1 = trace s @ es1"
    and c1: "cachedFolder s ?cp \<longrightarrow> es1 = []"
    and l1: "length (filter isList es1) \<le> 1"
    and k1: "length (filter isCreateFolder es1) \<le> 1"
    and n1: "length es1 = length (filter isList es1) + length (filter isCreateFolder es1)"
    and m1: "\<forall>p. cachedFolder s p \<longrightarrow> cachedFolder s1 p"
    by blast
  let ?u = "\<lambda>st ps. length (filter (\<lambda>p. \<not> cachedFolder st p) ps)"
  have head: "length (filter isList es1) + ?u s (currentPaths ?cp parts) \<le> ?u s (currentPaths cur (part # parts))"
    "length (filter isCreateFolder es1) + ?u s (currentPaths ?cp parts) \<le> ?u s (currentPaths cur (part # parts))"
    using c1 l1 k1 by auto
  show ?case
  proof (cases r1)
    case (Threw e)
    with Cons.prems st have "s' = s1" by (simp add: Let_def)
    with t1 n1 head show ?thesis by auto
  next
    case (Ok i)
    with Cons.prems st have rest: "ensureDriveFolder_loop h parts ?cp (Some i) s1 = (r, s')"
      by (simp add: Let_def)
    from Cons.IH[OF rest] obtain es2 where
      t2: "trace s' = trace s1 @ es2"
      and l2: "length (filter isList es2) \<le> ?u s1 (currentPaths ?cp parts)"
      and k2: "length (filter isCreateFolder es2) \<le> ?u s1 (currentPaths ?cp parts)"
      and n2: "length es2 = length (filter isList es2) + length (filter isCreateFolder es2)"
      by blast
    have mono: "?u s1 (currentPaths ?cp parts) \<le> ?u s (currentPaths ?cp parts)"
      by (rule filter_mono_length) (use m1 in blast)
    have "trace s' = trace s @ (es1 @ es2)" using t1 t2 by simp
    moreover have "length (filter isList (es1 @ es2)) \<le> ?u s (currentPaths cur (part # parts))"
      using l2 mono head(1) by simp
    moreover have "length (filter isCreateFolder (es1 @ es2)) \<le> ?u s (currentPaths cur (part # parts))"
      using k2 mono head(2) by simp
    moreover have "length (es1 @ es2) = length (filter isList (es1 @ es2)) + length (filter isCreateFolder (es1 @ es2))"
      using n1 n2 by simp
    ultimately show ?thesis by blast
  qed
qed

lemma currentPaths_length [simp]: "length (currentPaths cur parts) = length parts"
  by (induction parts arbitrary: cur) auto

text \<open>
  C7. One call of \<open>ensureDriveFolder\<close> on a path of \<open>n\<close> segments sends at most one
  list query and at most one create-folder request for each segment whose
  \<open>currentPath\<close> has no usable entry in \<open>drivefolderIds\<close> when the call starts, and
  nothing for the others: both counts are bounded by the number of uncached segments,
  which is at most \<open>n\<close>, and the call emits nothing but these requests. With every
  segment cached the bound is \<open>0\<close> and the call emits nothing.
\<close>

theorem ensureDriveFolder_request_bounds:
  "length (filter isList (emitted s (snd (ensureDriveFolder h folderPath s))))
       \<le> uncachedSegments s folderPath
   \<and> length (filter isCreateFolder (emitted s (snd (ensureDriveFolder h folderPath s))))
       \<le> uncachedSegments s folderPath
   \<and> uncachedSegments s folderPath \<le> length (pathParts folderPath)
   \<and> length (emitted s (snd (ensureDriveFolder h folderPath s)))
       = length (filter isList (emitted s (snd (ensureDriveFolder h folderPath s))))
         + length (filter isCreateFolder (emitted s (snd (ensureDriveFolder h folderPath s))))"
proof -
  obtain r s' where e: "ensureDriveFolder h folderPath s = (r, s')"
    by (cases "ensureDriveFolder h folderPath s")
  from loop_requests[OF e[unfolded ensureDriveFolder_def]] obtain es where
    "trace s' = trace s @ es"
    "length (filter isList es) \<le> uncachedSegments s folderPath"
    "length (filter isCreateFolder es) \<le> uncachedSegments s folderPath"
    "length es = length (filter isList es) + length (filter isCreateFolder es)"
    unfolding uncachedSegments_def by blast
  moreover have "uncachedSegments s folderPath \<le> length (pathParts folderPath)"
    unfolding uncachedSegments_def
    by (rule order_trans[OF length_filter_le]) simp
  ultimately show ?thesis
    by (simp add: e emitted_append)
qed

subsection \<open>A whole pass\<close>

lemma keeps_refl [simp]: "keeps s s"
  by (simp add: keeps_def)

lemma keeps_trans: "keeps s s1 \<Longrightarrow> keeps s1 s2 \<Longrightarrow> keeps s s2"
  unfolding keeps_def
  by (auto intro: grows_trans) metis

lemma keeps_emit [simp]: "keeps s (emit e s)"
  by (simp add: keeps_def)

lemma keeps_emit_right: "keeps s s1 \<Longrightarrow> keeps s (emit e s1)"
  by (auto simp: keeps_def intro: grows_emit_right)

lemma keeps_cache_update: "keeps s s1 \<Longrightarrow> keeps s (s1\<lparr>drivefolderIds := m\<rparr>)"
  by (auto simp: keeps_def grows_def)

lemma token_keeps: "oauth_getAccessToken h s = (r, s') \<Longrightarrow> keeps s s'"
  by (auto simp: oauth_getAccessToken_def keeps_def grows_def split: prod.splits)

lemma ensureObsidianFolder_keeps: "ensureObsidianFolder h s = (r, s') \<Longrightarrow> keeps s s'"
  unfolding ensureObsidianFolder_def Let_def keeps_def
  by (auto simp: grows_def split: prod.splits result.splits list.splits
           dest!: list_frame create_frame)

lemma ensureDriveFolder_keeps: "ensureDriveFolder h p s = (r, s') \<Longrightarrow> keeps s s'"
  using ensureDriveFolder_frame[of h p s r s'] by (simp add: keeps_def)

lemma uploadObsidianFile_keeps: "uploadObsidianFile h tf cp s = (r, s') \<Longrightarrow> keeps s s'"
  using uploadObsidianFile_frame[of h tf cp s r s'] by (simp add: keeps_def)

lemma traversal_keeps:
  "(\<forall>r s'. uploadFolderContents h items cp s = (r, s') \<longrightarrow> keeps s s')"
  "(\<forall>r s'. uploadFolderItem h item cp s = (r, s') \<longrightarrow> keeps s s')"
proof (induction h items cp s and h item cp s rule: uploadFolderContents_uploadFolderItem.induct)
  case (1 h currentPath s)
  then show ?case by simp
next
  case (2 h item items currentPath s)
  show ?case
  proof (intro allI impI)
    fix r s'
    assume a: "uploadFolderContents h (item # items) currentPath s = (r, s')"
    obtain r1 s1 where i: "uploadFolderItem h item currentPath s = (r1, s1)"
      by (cases "uploadFolderItem h item currentPath s")
    with 2 have k1: "keeps s s1" by blast
    show "keeps s s'"
    proof (cases r1)
      case (Threw e)
      with a i have "s' = s1" by simp
      with k1 show ?thesis by simp
    next
      case (Ok u)
      with a i have "uploadFolderContents h items currentPath s1 = (r, s')" by simp
      with 2(2)[OF i[symmetric] Ok] have "keeps s1 s'" by blast
      with k1 show ?thesis by (rule keeps_trans)
    qed
  qed
next
  case (3 h tf currentPath s)
  then show ?case by (auto dest: uploadObsidianFile_keeps)
next
  case (4 h name children currentPath s)
  show ?case
  proof (intro allI impI)
    fix r s'
    assume a: "uploadFolderItem h (TFolder name children) currentPath s = (r, s')"
    let ?np = "path_join currentPath name"
    obtain r1 s1 where e: "ensureDriveFolder h ?np s = (r1, s1)"
      by (cases "ensureDriveFolder h ?np s")
    then have k1: "keeps s s1" by (rule ensureDriveFolder_keeps)
    show "keeps s s'"
    proof (cases r1)
      case (Threw x)
      with a e have "s' = s1" by (simp add: Let_def)
      with k1 show ?thesis by simp
    next
      case (Ok parent)
      with a e have "uploadFolderContents h children ?np s1 = (r, s')" by (simp add: Let_def)
      with 4[OF refl e[symmetric] Ok] have "keeps s1 s'" by blast
      with k1 show ?thesis by (rule keeps_trans)
    qed
  qed
qed

lemma uploadFolderContents_keeps: "uploadFolderContents h items cp s = (r, s') \<Longrightarrow> keeps s s'"
  using traversal_keeps(1)[of h items cp s] by blast

lemma uploadVaultContents_keeps: "uploadVaultContents h root s = (r, s') \<Longrightarrow> keeps s s'"
  unfolding uploadVaultContents_def by (rule uploadFolderContents_keeps)


lemma save_steps:
  "saveSettings h s = (r, s') \<Longrightarrow>
     settings s' = settings s \<and> fileIds s' = fileIds s
     \<and> grows s s' \<and> dataFile s' \<in> {dataFile s, Some (SettingsData (settings s))}"
  "saveFileIds h s = (r, s') \<Longrightarrow>
     settings s' = settings s \<and> fileIds s' = fileIds s
     \<and> grows s s' \<and> dataFile s' \<in> {dataFile s, Some (StringData ''fileIds'')}"
  by (auto simp: saveSettings_def saveFileIds_def grows_def split: prod.splits if_splits)

text \<open>What the \<open>try\<close> block leaves behind, by where it stopped.\<close>

lemma try_effect:
  assumes t: "syncWithGoogleDrive_try h root now s = (r, s')"
  shows "(\<forall>p. fileIds s' p = fileIds s p \<or> (\<exists>i. fileIds s' p = Some i \<and> i \<noteq> []))
         \<and> (if (case oauth_getAccessToken h s of
                    (Threw e, s1) \<Rightarrow> False
                  | (Ok u1, s1) \<Rightarrow>
                      (case ensureObsidianFolder h
                              ((emit (Notice ''Syncing with Google Drive...'') s1)\<lparr>drivefolderIds := Map.empty\<rparr>) of
                         (Threw e, s2) \<Rightarrow> False
                       | (Ok u2, s2) \<Rightarrow>
                           (case uploadVaultContents h root s2 of
                              (Threw e, s3) \<Rightarrow> False
                            | (Ok u3, s3) \<Rightarrow> True)))
             then settings s' = (settings s)\<lparr>lastSyncTimestamp := Some now\<rparr>
                  \<and> dataFile s' \<in> {dataFile s,
                                   Some (SettingsData ((settings s)\<lparr>lastSyncTimestamp := Some now\<rparr>)),
                                   Some (StringData ''fileIds'')}
             else settings s' = settings s \<and> dataFile s' = dataFile s)"
proof -
  obtain r1 s1 where a: "oauth_getAccessToken h s = (r1, s1)"
    by (cases "oauth_getAccessToken h s")
  note k1 = token_keeps[OF a]
  show ?thesis
  proof (cases r1)
    case (Threw e)
    with t a have "s' = s1" by (simp add: syncWithGoogleDrive_try_def)
    with k1 Threw a show ?thesis by (simp add: keeps_def)
  next
    case ok1: (Ok u1)
    let ?s1 = "(emit (Notice ''Syncing with Google Drive...'') s1)\<lparr>drivefolderIds := Map.empty\<rparr>"
    have k1': "keeps s ?s1"
      using k1 by (intro keeps_cache_update keeps_emit_right)
    obtain r2 s2 where b: "ensureObsidianFolder h ?s1 = (r2, s2)"
      by (cases "ensureObsidianFolder h ?s1")
    have k2: "keeps s s2"
      using k1' ensureObsidianFolder_keeps[OF b] by (rule keeps_trans)
    show ?thesis
    proof (cases r2)
      case (Threw e)
      with t a ok1 b have "s' = s2" by (simp add: syncWithGoogleDrive_try_def)
      with k2 Threw a ok1 b show ?thesis by (simp add: keeps_def)
    next
      case ok2: (Ok u2)
      obtain r3 s3 where c: "uploadVaultContents h root s2 = (r3, s3)"
        by (cases "uploadVaultContents h root s2")
      have k3: "keeps s s3"
        using k2 uploadVaultContents_keeps[OF c] by (rule keeps_trans)
      show ?thesis
      proof (cases r3)
        case (Threw e)
        with t a ok1 b ok2 c have "s' = s3" by (simp add: syncWithGoogleDrive_try_def)
        with k3 Threw a ok1 b ok2 c show ?thesis by (simp add: keeps_def)
      next
        case ok3: (Ok u3)
        let ?s3 = "s3\<lparr>settings := (settings s3)\<lparr>lastSyncTimestamp := Some now\<rparr>\<rparr>"
        obtain r4 s4 where d: "saveSettings h ?s3 = (r4, s4)"
          by (cases "saveSettings h ?s3")
        note f4 = save_steps(1)[OF d]
        have reach: "(case oauth_getAccessToken h s of
                    (Threw e, s1) \<Rightarrow> False
                  | (Ok u1, s1) \<Rightarrow>
                      (case ensureObsidianFolder h
                              ((emit (Notice ''Syncing with Google Drive...'') s1)\<lparr>drivefolderIds := Map.empty\<rparr>) of
                         (Threw e, s2) \<Rightarrow> False
                       | (Ok u2, s2) \<Rightarrow>
                           (case uploadVaultContents h root s2 of
                              (Threw e, s3) \<Rightarrow> False
                            | (Ok u3, s3) \<Rightarrow> True)))"
          using a ok1 b ok2 c ok3 by simp
        have base4: "(\<forall>p. fileIds s4 p = fileIds s p \<or> (\<exists>i. fileIds s4 p = Some i \<and> i \<noteq> []))
            \<and> settings s4 = (settings s)\<lparr>lastSyncTimestamp := Some now\<rparr>
            \<and> dataFile s4 \<in> {dataFile s, Some (SettingsData ((settings s)\<lparr>lastSyncTimestamp := Some now\<rparr>))}"
          using k3 f4 by (auto simp: keeps_def)
        show ?thesis
        proof (cases r4)
          case (Threw e)
          with t a ok1 b ok2 c ok3 d have "s' = s4" by (simp add: syncWithGoogleDrive_try_def)
          with base4 reach show ?thesis by auto
        next
          case ok4: (Ok u4)
          obtain r5 s5 where e: "saveFileIds h s4 = (r5, s5)"
            by (cases "saveFileIds h s4")
          note f5 = save_steps(2)[OF e]
          have "s' = s5 \<or> s' = emit (Notice ''Sync complete!'') s5"
            using t a ok1 b ok2 c ok3 d ok4 e
            by (cases r5) (simp_all add: syncWithGoogleDrive_try_def)
          with base4 f5 reach show ?thesis by auto
        qed
      qed
    qed
  qed
qed

lemma sync_effect:
  "(\<forall>p. fileIds (syncWithGoogleDrive h root now s) p = fileIds s p
        \<or> (\<exists>i. fileIds (syncWithGoogleDrive h root now s) p = Some i \<and> i \<noteq> []))
   \<and> (if reachesAssignment h root s
       then settings (syncWithGoogleDrive h root now s) = (settings s)\<lparr>lastSyncTimestamp := Some now\<rparr>
            \<and> dataFile (syncWithGoogleDrive h root now s)
                 \<in> {dataFile s,
                     Some (SettingsData ((settings s)\<lparr>lastSyncTimestamp := Some now\<rparr>)),
                     Some (StringData ''fileIds'')}
       else settings (syncWithGoogleDrive h root now s) = settings s
            \<and> dataFile (syncWithGoogleDrive h root now s) = dataFile s)"
proof (cases "googleDriveRefreshToken (settings s) = []")
  case True
  then show ?thesis
    by (simp add: syncWithGoogleDrive_def reachesAssignment_def)
next
  case False
  obtain r s' where t: "syncWithGoogleDrive_try h root now s = (r, s')"
    by (cases "syncWithGoogleDrive_try h root now s")
  have fin: "syncWithGoogleDrive h root now s = s'
             \<or> syncWithGoogleDrive h root now s =
                  emit (Notice ''Error during sync. Please try again.'')
                    (emit (ConsoleError ''Error syncing with Google Drive:'') s')"
    using False t by (cases r) (simp_all add: syncWithGoogleDrive_def)
  from try_effect[OF t] fin False show ?thesis
    unfolding reachesAssignment_def by auto
qed

text \<open>
  C2. \<open>lastSyncTimestamp\<close> after a pass is the clock reading exactly when the pass
  got as far as the assignment, that is when the plugin is logged in and none of
  \<open>getAccessToken\<close>, \<open>ensureObsidianFolder\<close> and \<open>uploadVaultContents\<close> threw; in every
  other pass it is what it was before the pass, in memory and in the data file. (The
  two writes come after the assignment: when the first is rejected the pass ends in
  the handler with the timestamp set in memory and the data file as it was; when it is
  accepted the data file holds the settings with the new timestamp, until the second
  write puts the string \<open>fileIds\<close> in their place.)
\<close>

theorem lastSyncTimestamp_set_only_after_traversal:
  "lastSyncTimestamp (settings (syncWithGoogleDrive h root now s)) =
     (if reachesAssignment h root s then Some now else lastSyncTimestamp (settings s))
   \<and> (if reachesAssignment h root s
       then dataFile (syncWithGoogleDrive h root now s)
              \<in> {dataFile s,
                  Some (SettingsData ((settings s)\<lparr>lastSyncTimestamp := Some now\<rparr>)),
                  Some (StringData ''fileIds'')}
       else settings (syncWithGoogleDrive h root now s) = settings s
            \<and> dataFile (syncWithGoogleDrive h root now s) = dataFile s)"
  using sync_effect[of h root now s] by (auto split: if_splits)


subsection \<open>The durable file-id mapping\<close>

lemma sync_dom: "dom (fileIds s) \<subseteq> dom (fileIds (syncWithGoogleDrive h root now s))"
proof
  fix p assume "p \<in> dom (fileIds s)"
  then obtain i where "fileIds s p = Some i" by auto
  moreover have "fileIds (syncWithGoogleDrive h root now s) p = fileIds s p
        \<or> (\<exists>i. fileIds (syncWithGoogleDrive h root now s) p = Some i \<and> i \<noteq> [])"
    using sync_effect[of h root now s] by blast
  ultimately show "p \<in> dom (fileIds (syncWithGoogleDrive h root now s))" by auto
qed

lemma passes_dom:
  "dom (fileIds s) \<subseteq> dom (fileIds (passes h runs s))"
proof (induction runs arbitrary: s)
  case Nil
  then show ?case by (simp add: passes_def)
next
  case (Cons run runs)
  obtain root now where run: "run = (root, now)" by (cases run)
  have step: "passes h (run # runs) s = passes h runs (syncWithGoogleDrive h root now s)"
    by (simp add: passes_def run)
  show ?case
    unfolding step by (rule order_trans[OF sync_dom Cons.IH])
qed

text \<open>
  C10 fails on the code. Within one instance the set of paths in \<open>fileIds\<close> only
  grows, as the two lemmas above say. It does not survive a restart: an installation
  whose data file holds the settings of a logged-in user is loaded and syncs the vault
  holding \<open>notes/a.md\<close>, which records the id of the new file under \<open>/notes/a.md\<close>;
  the pass and \<open>onunload\<close> then write the string \<open>fileIds\<close> to the data file, and the
  instance loaded next has no entry for \<open>/notes/a.md\<close>: its \<open>fileIds\<close> holds the
  characters of the string under their indices, and its settings are the defaults, so
  the user is logged out and \<open>lastSyncTimestamp\<close> is unset.
\<close>

theorem fileIds_lost_on_restart:
  "fileIds (passes memDrive [(notesVault, 100)] (onload ''client'' ''secret'' loggedInInstallation))
       ''/notes/a.md'' = Some ''id++''
   \<and> fileIds (session memDrive ''client'' ''secret'' [(notesVault, 100)] loggedInInstallation)
       ''/notes/a.md'' = Some ''id++''
   \<and> dataFile (session memDrive ''client'' ''secret'' [(notesVault, 100)] loggedInInstallation)
       = Some (StringData ''fileIds'')
   \<and> fileIds (onload ''client'' ''secret''
                (session memDrive ''client'' ''secret'' [(notesVault, 100)] loggedInInstallation))
       ''/notes/a.md'' = None
   \<and> fileIds (onload ''client'' ''secret''
                (session memDrive ''client'' ''secret'' [(notesVault, 100)] loggedInInstallation))
       ''0'' = Some ''f''
   \<and> settings (onload ''client'' ''secret''
                 (session memDrive ''client'' ''secret'' [(notesVault, 100)] loggedInInstallation))
       = (DEFAULT_SETTINGS ''client'' ''secret'')\<lparr>otherProperties := indexProperties ''fileIds''\<rparr>
   \<and> fileIds (lifetime memDrive ''client'' ''secret'' [[(notesVault, 100)], []] loggedInInstallation)
       ''/notes/a.md'' = None"
  by code_simp

subsection \<open>A failing folder operation\<close>

text \<open>
  C3, as the claim states it, fails. On a vault with a folder followed by a note, with
  the list-children query for the folder rejected, the pass stops at the rejection:
  the note that follows is neither read nor uploaded, the pass ends with the error
  notice, and \<open>lastSyncTimestamp\<close> stays unset.
\<close>

theorem folder_failure_aborts_counterexample:
  "trace (syncWithGoogleDrive memDrive twoItemVault 100 (freshPlugin outageStore)) =
     [Call GetAccessToken, Notice ''Syncing with Google Drive...'',
      Call (FilesList (FolderNamed ''Obsidian Vault'')),
      Call (FilesCreate (FolderMeta ''Obsidian Vault'' [])),
      ConsoleLog ''Obsidian folder ID: id'',
      Call (FilesList (FolderNamedIn ''notes'' (Some ''id''))),
      ConsoleError ''Error syncing with Google Drive:'',
      Notice ''Error during sync. Please try again.'']
   \<and> rejects memDrive (FilesList (FolderNamedIn ''notes'' (Some ''id'')))
         (world (atTraversal memDrive (freshPlugin outageStore)))
   \<and> filter isRead (trace (syncWithGoogleDrive memDrive twoItemVault 100 (freshPlugin outageStore))) = []
   \<and> lastSyncTimestamp (settings (syncWithGoogleDrive memDrive twoItemVault 100 (freshPlugin outageStore))) = None"
  by code_simp

lemma replay_append [simp]: "replay h (cs @ ds) w = replay h ds (replay h cs w)"
  by (induction cs arbitrary: w) simp_all

lemma folderOpRejected_append [simp]:
  "folderOpRejected h (cs @ ds) w
     = (folderOpRejected h cs w \<or> folderOpRejected h ds (replay h cs w))"
  by (induction cs arbitrary: w) auto

lemma stopsI:
  assumes "trace s' = trace s @ es" and "world s' = replay h (requests es) (world s)"
    and "folderOpRejected h (requests es) (world s) \<Longrightarrow>
          \<exists>es0 c. es = es0 @ [Call c] \<and> isFolderOp c
                 \<and> rejects h c (replay h (requests es0) (world s))
                 \<and> \<not> folderOpRejected h (requests es0) (world s)
                 \<and> r = Threw (RemoteError c)"
  shows "stopsAtRejection h s (r, s')"
  using assms unfolding stopsAtRejection_def by (auto simp: grows_def emitted_def)

lemma stopsD:
  assumes "stopsAtRejection h s (r, s')"
  shows "\<exists>es. trace s' = trace s @ es \<and> world s' = replay h (requests es) (world s)
          \<and> (folderOpRejected h (requests es) (world s) \<longrightarrow>
               (\<exists>es0 c. es = es0 @ [Call c] \<and> isFolderOp c
                 \<and> rejects h c (replay h (requests es0) (world s))
                 \<and> \<not> folderOpRejected h (requests es0) (world s)
                 \<and> r = Threw (RemoteError c)))"
  using assms unfolding stopsAtRejection_def by (auto simp: grows_def emitted_def)

lemma stops_refl [simp]: "stopsAtRejection h s (r, s)"
  by (rule stopsI[where es="[]"]) simp_all

lemma stops_seq:
  assumes a: "stopsAtRejection h s (Ok x, s1)" and b: "stopsAtRejection h s1 (r, s2)"
  shows "stopsAtRejection h s (r, s2)"
proof -
  from stopsD[OF a] obtain es1 where
    t1: "trace s1 = trace s @ es1" and w1: "world s1 = replay h (requests es1) (world s)"
    and n1: "\<not> folderOpRejected h (requests es1) (world s)"
    by auto
  from stopsD[OF b] obtain es2 where
    t2: "trace s2 = trace s1 @ es2" and w2: "world s2 = replay h (requests es2) (world s1)"
    and r2: "folderOpRejected h (requests es2) (world s1) \<longrightarrow>
               (\<exists>es0 c. es2 = es0 @ [Call c] \<and> isFolderOp c
                 \<and> rejects h c (replay h (requests es0) (world s1))
                 \<and> \<not> folderOpRejected h (requests es0) (world s1)
                 \<and> r = Threw (RemoteError c))"
    by auto
  show ?thesis
  proof (rule stopsI[where es="es1 @ es2"])
    show "trace s2 = trace s @ es1 @ es2" using t1 t2 by simp
    show "world s2 = replay h (requests (es1 @ es2)) (world s)" using w1 w2 by simp
    assume "folderOpRejected h (requests (es1 @ es2)) (world s)"
    with n1 w1 have "folderOpRejected h (requests es2) (world s1)" by simp
    with r2 obtain es0 c where "es2 = es0 @ [Call c]" "isFolderOp c"
      "rejects h c (replay h (requests es0) (world s1))"
      "\<not> folderOpRejected h (requests es0) (world s1)" "r = Threw (RemoteError c)"
      by blast
    with n1 w1 show "\<exists>es0 c. es1 @ es2 = es0 @ [Call c] \<and> isFolderOp c
                 \<and> rejects h c (replay h (requests es0) (world s))
                 \<and> \<not> folderOpRejected h (requests es0) (world s)
                 \<and> r = Threw (RemoteError c)"
      by (intro exI[where x="es1 @ es0"] exI[where x=c]) simp
  qed
qed

lemma stops_quiet:
  assumes a: "stopsAtRejection h s (Ok x, s1)"
    and t: "trace s2 = trace s1 @ es" and q: "requests es = []" and w: "world s2 = world s1"
  shows "stopsAtRejection h s (r, s2)"
proof (rule stops_seq[OF a])
  show "stopsAtRejection h s1 (r, s2)"
    by (rule stopsI[OF t]) (simp_all add: q w)
qed

lemma stops_frame:
  assumes "stopsAtRejection h s (r, s1)" and "trace s2 = trace s1" and "world s2 = world s1"
  shows "stopsAtRejection h s (r, s2)"
  using assms unfolding stopsAtRejection_def by (simp add: grows_def emitted_def)

lemma stops_start:
  assumes "stopsAtRejection h s1 (r, s2)" and "trace s1 = trace s" and "world s1 = world s"
  shows "stopsAtRejection h s (r, s2)"
  using assms unfolding stopsAtRejection_def by (simp add: grows_def emitted_def)

lemma stops_call:
  assumes t: "trace s' = trace s @ [Call c]" and w: "world s' = answered h c (world s)"
    and r: "isFolderOp c \<Longrightarrow> rejects h c (world s) \<Longrightarrow> r = Threw (RemoteError c)"
  shows "stopsAtRejection h s (r, s')"
proof (rule stopsI[OF t])
  show "world s' = replay h (requests [Call c]) (world s)" using w by simp
  assume "folderOpRejected h (requests [Call c]) (world s)"
  then have "isFolderOp c" "rejects h c (world s)" by simp_all
  with r show "\<exists>es0 ca. [Call c] = es0 @ [Call ca] \<and> isFolderOp ca
                 \<and> rejects h ca (replay h (requests es0) (world s))
                 \<and> \<not> folderOpRejected h (requests es0) (world s)
                 \<and> r = Threw (RemoteError ca)"
    by (intro exI[where x="[]"] exI[where x=c]) simp
qed

lemma list_stops: "stopsAtRejection h s (drive_files_list h q s)"
proof -
  obtain r s' where e: "drive_files_list h q s = (r, s')" by (cases "drive_files_list h q s")
  have "stopsAtRejection h s (r, s')"
    using e
    by (intro stops_call[where c="FilesList q"])
       (auto simp: drive_files_list_def answered_def rejects_def split: prod.splits)
  with e show ?thesis by simp
qed

lemma create_stops: "stopsAtRejection h s (drive_files_create h res s)"
proof -
  obtain r s' where e: "drive_files_create h res s = (r, s')" by (cases "drive_files_create h res s")
  have "stopsAtRejection h s (r, s')"
    using e
    by (intro stops_call[where c="FilesCreate res"])
       (auto simp: drive_files_create_def answered_def rejects_def split: prod.splits)
  with e show ?thesis by simp
qed

lemma update_stops: "stopsAtRejection h s (drive_files_update h i res s)"
proof -
  obtain r s' where e: "drive_files_update h i res s = (r, s')" by (cases "drive_files_update h i res s")
  have "stopsAtRejection h s (r, s')"
    using e
    by (intro stops_call[where c="FilesUpdate i res"])
       (auto simp: drive_files_update_def answered_def rejects_def isFolderOp_def split: prod.splits)
  with e show ?thesis by simp
qed

lemma token_stops: "stopsAtRejection h s (oauth_getAccessToken h s)"
proof -
  obtain r s' where e: "oauth_getAccessToken h s = (r, s')" by (cases "oauth_getAccessToken h s")
  have "stopsAtRejection h s (r, s')"
    using e
    by (intro stops_call[where c="GetAccessToken"])
       (auto simp: oauth_getAccessToken_def answered_def rejects_def isFolderOp_def split: prod.splits)
  with e show ?thesis by simp
qed

lemma save_stops:
  "stopsAtRejection h s (saveSettings h s)"
  "stopsAtRejection h s (saveFileIds h s)"
proof -
  obtain r s' where e: "saveSettings h s = (r, s')" by (cases "saveSettings h s")
  have "stopsAtRejection h s (r, s')"
    using e
    by (intro stops_call[where c="SaveData"])
       (auto simp: saveSettings_def answered_def rejects_def isFolderOp_def split: prod.splits if_splits)
  with e show "stopsAtRejection h s (saveSettings h s)" by simp
  obtain r s' where e: "saveFileIds h s = (r, s')" by (cases "saveFileIds h s")
  have "stopsAtRejection h s (r, s')"
    using e
    by (intro stops_call[where c="SaveData"])
       (auto simp: saveFileIds_def answered_def rejects_def isFolderOp_def split: prod.splits if_splits)
  with e show "stopsAtRejection h s (saveFileIds h s)" by simp
qed


lemma ensureObsidianFolder_stops: "stopsAtRejection h s (ensureObsidianFolder h s)"
proof -
  let ?q = "FolderNamed ''Obsidian Vault''"
  obtain r1 s1 where l: "drive_files_list h ?q s = (r1, s1)" by (cases "drive_files_list h ?q s")
  have a: "stopsAtRejection h s (r1, s1)" using list_stops[of h s ?q] l by simp
  show ?thesis
  proof (cases r1)
    case (Threw e)
    with l a show ?thesis
      by (simp add: ensureObsidianFolder_def stopsAtRejection_def)
  next
    case (Ok files)
    show ?thesis
    proof (cases files)
      case (Cons f fs)
      have "stopsAtRejection h s
              (Ok (), emit (ConsoleLog (''Obsidian folder ID: '' @ f))
                        (s1\<lparr>obsidianFolderId := Some f, drivefolderIds := (drivefolderIds s1)(''/'' \<mapsto> f)\<rparr>))"
        using a[unfolded Ok]
        by (rule stops_quiet[where es="[ConsoleLog (''Obsidian folder ID: '' @ f)]"]) simp_all
      with l Ok Cons show ?thesis by (simp add: ensureObsidianFolder_def)
    next
      case Nil
      let ?res = "FolderMeta ''Obsidian Vault'' []"
      obtain r2 s2 where c: "drive_files_create h ?res s1 = (r2, s2)"
        by (cases "drive_files_create h ?res s1")
      have b: "stopsAtRejection h s (r2, s2)"
        using stops_seq[OF a[unfolded Ok]] create_stops[of h s1 ?res] c by simp
      show ?thesis
      proof (cases r2)
        case (Threw e)
        with l Ok Nil c b show ?thesis
          by (simp add: ensureObsidianFolder_def stopsAtRejection_def)
      next
        case ok2: (Ok i)
        have "stopsAtRejection h s
              (Ok (), emit (ConsoleLog (''Obsidian folder ID: '' @ i))
                        (s2\<lparr>obsidianFolderId := Some i, drivefolderIds := (drivefolderIds s2)(''/'' \<mapsto> i)\<rparr>))"
          using b[unfolded ok2]
          by (rule stops_quiet[where es="[ConsoleLog (''Obsidian folder ID: '' @ i)]"]) simp_all
        with l Ok Nil c ok2 show ?thesis by (simp add: ensureObsidianFolder_def)
      qed
    qed
  qed
qed

lemma step_stops: "stopsAtRejection h s (ensureDriveFolder_step h part cur pid s)"
proof (cases "truthyId (drivefolderIds s cur)")
  case (Some cached)
  then show ?thesis by (simp add: ensureDriveFolder_step_def)
next
  case None
  let ?q = "FolderNamedIn part pid"
  obtain r1 s1 where l: "drive_files_list h ?q s = (r1, s1)" by (cases "drive_files_list h ?q s")
  have a: "stopsAtRejection h s (r1, s1)" using list_stops[of h s ?q] l by simp
  show ?thesis
  proof (cases r1)
    case (Threw e)
    with l a None show ?thesis
      by (simp add: ensureDriveFolder_step_def stopsAtRejection_def)
  next
    case (Ok files)
    show ?thesis
    proof (cases files)
      case (Cons f fs)
      have "stopsAtRejection h s (Ok f, s1\<lparr>drivefolderIds := (drivefolderIds s1)(cur \<mapsto> f)\<rparr>)"
        using a[unfolded Ok]
        by (rule stops_quiet[where es="[]"]) simp_all
      with l Ok Cons None show ?thesis by (simp add: ensureDriveFolder_step_def)
    next
      case Nil
      let ?res = "FolderMeta part [pid]"
      obtain r2 s2 where c: "drive_files_create h ?res s1 = (r2, s2)"
        by (cases "drive_files_create h ?res s1")
      have b: "stopsAtRejection h s (r2, s2)"
        using stops_seq[OF a[unfolded Ok]] create_stops[of h s1 ?res] c by simp
      show ?thesis
      proof (cases r2)
        case (Threw e)
        with l Ok Nil c b None show ?thesis
          by (simp add: ensureDriveFolder_step_def stopsAtRejection_def)
      next
        case ok2: (Ok i)
        have "stopsAtRejection h s (Ok i, s2\<lparr>drivefolderIds := (drivefolderIds s2)(cur \<mapsto> i)\<rparr>)"
          using b[unfolded ok2] by (rule stops_frame) simp_all
        with l Ok Nil c ok2 None show ?thesis by (simp add: ensureDriveFolder_step_def)
      qed
    qed
  qed
qed

lemma loop_stops: "stopsAtRejection h s (ensureDriveFolder_loop h parts cur pid s)"
proof (induction parts arbitrary: cur pid s)
  case Nil
  show ?case by simp
next
  case (Cons part parts)
  obtain r1 s1 where st: "ensureDriveFolder_step h part (path_join cur part) pid s = (r1, s1)"
    by (cases "ensureDriveFolder_step h part (path_join cur part) pid s")
  have a: "stopsAtRejection h s (r1, s1)"
    using step_stops[of h s part "path_join cur part" pid] st by simp
  show ?case
  proof (cases r1)
    case (Threw e)
    with st a show ?thesis by (simp add: Let_def stopsAtRejection_def)
  next
    case (Ok i)
    obtain r2 s2 where lp: "ensureDriveFolder_loop h parts (path_join cur part) (Some i) s1 = (r2, s2)"
      by (cases "ensureDriveFolder_loop h parts (path_join cur part) (Some i) s1")
    have "stopsAtRejection h s1 (r2, s2)"
      using Cons.IH[of s1 "path_join cur part" "Some i"] lp by simp
    from stops_seq[OF a[unfolded Ok] this] st Ok lp show ?thesis by (simp add: Let_def)
  qed
qed

lemma ensureDriveFolder_stops: "stopsAtRejection h s (ensureDriveFolder h p s)"
  unfolding ensureDriveFolder_def by (rule loop_stops)


lemma stops_rethrow:
  "stopsAtRejection h s ((Threw e :: 'a result), s1) \<Longrightarrow> stopsAtRejection h s ((Threw e :: 'b result), s1)"
  by (simp add: stopsAtRejection_def)

lemma uploadFile_stops: "stopsAtRejection h s (uploadFile h fp body mt s)"
proof -
  obtain r1 s1 where e: "ensureDriveFolder h (path_dirname fp) s = (r1, s1)"
    by (cases "ensureDriveFolder h (path_dirname fp) s")
  have a: "stopsAtRejection h s (r1, s1)"
    using ensureDriveFolder_stops[of h s "path_dirname fp"] e by simp
  show ?thesis
  proof (cases r1)
    case (Threw x)
    with e a show ?thesis by (simp add: uploadFile_def Let_def stopsAtRejection_def)
  next
    case (Ok parentId)
    from uploadFile_after_resolution[OF e[unfolded Ok], of body mt]
    obtain r s2 line where up: "uploadFile h fp body mt s = (r, s2)"
      and tr: "trace s2 = trace s1 @ [Call (uploadRequest s fp
                                        (FileMedia (path_basename fp) [parentId] mt body)), line]"
      and ln: "requests [line] = []"
      by blast
    let ?c = "uploadRequest s fp (FileMedia (path_basename fp) [parentId] mt body)"
    have nf: "\<not> isFolderOp ?c"
      by (simp add: uploadRequest_def isFolderOp_def split: option.splits)
    have w: "world s2 = answered h ?c (world s1)"
      using up e Ok ensureDriveFolder_frame[OF e]
      by (auto simp: uploadFile_def Let_def uploadRequest_def answered_def
                     drive_files_update_def drive_files_create_def
               split: option.splits prod.splits)
    have "stopsAtRejection h s1 (r, s2)"
      by (rule stopsI[OF tr]) (use ln nf w in simp_all)
    from stops_seq[OF a[unfolded Ok] this] up show ?thesis by simp
  qed
qed

lemma readContent_stops: "stopsAtRejection h s (readContent tf fp s)"
proof -
  obtain r s1 where rd: "readContent tf fp s = (r, s1)" by (cases "readContent tf fp s")
  from readContent_frame[OF rd]
  have "\<exists>es. trace s1 = trace s @ es \<and> requests es = []" "world s1 = world s"
    by auto
  then obtain es where "trace s1 = trace s @ es" "requests es = []" by blast
  then have "stopsAtRejection h s (r, s1)"
    using \<open>world s1 = world s\<close> by (intro stopsI[where es=es]) simp_all
  with rd show ?thesis by simp
qed

lemma uploadObsidianFile_stops: "stopsAtRejection h s (uploadObsidianFile h tf cp s)"
proof (cases "case lastSyncTimestamp (settings s) of None \<Rightarrow> False | Some t \<Rightarrow> tf_mtime tf \<le> t")
  case True
  have "stopsAtRejection h s
          (Ok (), emit (ConsoleLog (''Skipping '' @ path_join cp (tf_name tf)
                                      @ '' - not modified since last sync'')) s)"
    by (rule stops_quiet[OF stops_refl[where r="Ok ()"],
          where es="[ConsoleLog (''Skipping '' @ path_join cp (tf_name tf)
                                      @ '' - not modified since last sync'')]"]) simp_all
  with True show ?thesis by (simp add: uploadObsidianFile_unfold)
next
  case False
  let ?fp = "path_join cp (tf_name tf)"
  let ?mt = "getMimeType (tf_extension tf)"
  obtain r1 s1 where rd: "readContent tf ?fp s = (r1, s1)" by (cases "readContent tf ?fp s")
  have a: "stopsAtRejection h s (r1, s1)" using readContent_stops[of h s tf ?fp] rd by simp
  show ?thesis
  proof (cases r1)
    case (Threw e)
    with False rd a show ?thesis
      by (simp add: uploadObsidianFile_unfold stopsAtRejection_def)
  next
    case (Ok body)
    obtain r2 s2 where up: "uploadFile h ?fp body ?mt s1 = (r2, s2)"
      by (cases "uploadFile h ?fp body ?mt s1")
    have b: "stopsAtRejection h s (r2, s2)"
      using stops_seq[OF a[unfolded Ok]] uploadFile_stops[of h s1 ?fp body ?mt] up by simp
    show ?thesis
    proof (cases r2)
      case (Threw e)
      with False rd Ok up b show ?thesis
        by (simp add: uploadObsidianFile_unfold stopsAtRejection_def)
    next
      case ok2: (Ok fileId)
      have c: "stopsAtRejection h s (Ok (), s2)"
        using b[unfolded ok2] by (rule stops_quiet[where es="[]"]) simp_all
      show ?thesis
      proof (cases "truthyId fileId")
        case None
        with False rd Ok up ok2 c show ?thesis by (simp add: uploadObsidianFile_unfold)
      next
        case (Some i)
        have "stopsAtRejection h s (Ok (), s2\<lparr>fileIds := (fileIds s2)(?fp \<mapsto> i)\<rparr>)"
          using c by (rule stops_frame) simp_all
        with False rd Ok up ok2 Some show ?thesis by (simp add: uploadObsidianFile_unfold)
      qed
    qed
  qed
qed

lemma traversal_stops:
  "stopsAtRejection h s (uploadFolderContents h items cp s)"
  "stopsAtRejection h s (uploadFolderItem h item cp s)"
proof (induction h items cp s and h item cp s rule: uploadFolderContents_uploadFolderItem.induct)
  case (1 h currentPath s)
  show ?case by simp
next
  case (2 h item items currentPath s)
  obtain r1 s1 where i: "uploadFolderItem h item currentPath s = (r1, s1)"
    by (cases "uploadFolderItem h item currentPath s")
  have a: "stopsAtRejection h s (r1, s1)" using 2(1) i by simp
  show ?case
  proof (cases r1)
    case (Threw e)
    with i a show ?thesis by (simp add: stopsAtRejection_def)
  next
    case (Ok u)
    have "stopsAtRejection h s1 (uploadFolderContents h items currentPath s1)"
      using 2(2)[OF i[symmetric] Ok] .
    then have "stopsAtRejection h s (uploadFolderContents h items currentPath s1)"
      using stops_seq[OF a[unfolded Ok], of "fst (uploadFolderContents h items currentPath s1)"
                "snd (uploadFolderContents h items currentPath s1)"] by simp
    with i Ok show ?thesis by simp
  qed
next
  case (3 h tf currentPath s)
  show ?case by (simp add: uploadObsidianFile_stops)
next
  case (4 h name children currentPath s)
  let ?np = "path_join currentPath name"
  obtain r1 s1 where e: "ensureDriveFolder h ?np s = (r1, s1)"
    by (cases "ensureDriveFolder h ?np s")
  have a: "stopsAtRejection h s (r1, s1)" using ensureDriveFolder_stops[of h s ?np] e by simp
  show ?case
  proof (cases r1)
    case (Threw x)
    with e a show ?thesis by (simp add: Let_def stopsAtRejection_def)
  next
    case (Ok parent)
    have "stopsAtRejection h s1 (uploadFolderContents h children ?np s1)"
      using 4[OF refl e[symmetric] Ok] .
    then have "stopsAtRejection h s (uploadFolderContents h children ?np s1)"
      using stops_seq[OF a[unfolded Ok], of "fst (uploadFolderContents h children ?np s1)"
                "snd (uploadFolderContents h children ?np s1)"] by simp
    with e Ok show ?thesis by (simp add: Let_def)
  qed
qed


lemma stops_then:
  assumes "stopsAtRejection h s (Ok x, s1)" and "stopsAtRejection h s1 out"
  shows "stopsAtRejection h s out"
  using stops_seq[OF assms(1), of "fst out" "snd out"] assms(2) by simp

lemma try_stops: "stopsAtRejection h s (syncWithGoogleDrive_try h root now s)"
proof -
  obtain r1 s1 where a: "oauth_getAccessToken h s = (r1, s1)"
    by (cases "oauth_getAccessToken h s")
  have k1: "stopsAtRejection h s (r1, s1)" using token_stops[of h s] a by simp
  show ?thesis
  proof (cases r1)
    case (Threw e)
    with a k1 show ?thesis by (simp add: syncWithGoogleDrive_try_def stopsAtRejection_def)
  next
    case ok1: (Ok u1)
    let ?s1 = "(emit (Notice ''Syncing with Google Drive...'') s1)\<lparr>drivefolderIds := Map.empty\<rparr>"
    have k1': "stopsAtRejection h s (Ok (), ?s1)"
      using k1[unfolded ok1]
      by (rule stops_quiet[where es="[Notice ''Syncing with Google Drive...'']"]) simp_all
    obtain r2 s2 where b: "ensureObsidianFolder h ?s1 = (r2, s2)"
      by (cases "ensureObsidianFolder h ?s1")
    have k2: "stopsAtRejection h s (r2, s2)"
      using stops_then[OF k1' ensureObsidianFolder_stops[of h ?s1]] b by simp
    show ?thesis
    proof (cases r2)
      case (Threw e)
      with a ok1 b k2 show ?thesis by (simp add: syncWithGoogleDrive_try_def stopsAtRejection_def)
    next
      case ok2: (Ok u2)
      obtain r3 s3 where c: "uploadVaultContents h root s2 = (r3, s3)"
        by (cases "uploadVaultContents h root s2")
      have k3: "stopsAtRejection h s (r3, s3)"
        using stops_then[OF k2[unfolded ok2] traversal_stops(1)[of h s2 root "''/''"]] c
        by (simp add: uploadVaultContents_def)
      show ?thesis
      proof (cases r3)
        case (Threw e)
        with a ok1 b ok2 c k3 show ?thesis
          by (simp add: syncWithGoogleDrive_try_def stopsAtRejection_def)
      next
        case ok3: (Ok u3)
        let ?s3 = "s3\<lparr>settings := (settings s3)\<lparr>lastSyncTimestamp := Some now\<rparr>\<rparr>"
        have k3': "stopsAtRejection h s (Ok (), ?s3)"
          using k3[unfolded ok3] by (rule stops_quiet[where es="[]"]) simp_all
        obtain r4 s4 where d: "saveSettings h ?s3 = (r4, s4)"
          by (cases "saveSettings h ?s3")
        have k4: "stopsAtRejection h s (r4, s4)"
          using stops_then[OF k3' save_stops(1)[of h ?s3]] d by simp
        show ?thesis
        proof (cases r4)
          case (Threw e)
          with a ok1 b ok2 c ok3 d k4 show ?thesis
            by (simp add: syncWithGoogleDrive_try_def stopsAtRejection_def)
        next
          case ok4: (Ok u4)
          obtain r5 s5 where e: "saveFileIds h s4 = (r5, s5)"
            by (cases "saveFileIds h s4")
          have k5: "stopsAtRejection h s (r5, s5)"
            using stops_then[OF k4[unfolded ok4] save_stops(2)[of h s4]] e by simp
          show ?thesis
          proof (cases r5)
            case (Threw x)
            with a ok1 b ok2 c ok3 d ok4 e k5 show ?thesis
              by (simp add: syncWithGoogleDrive_try_def stopsAtRejection_def)
          next
            case ok5: (Ok u5)
            have "stopsAtRejection h s (Ok (), emit (Notice ''Sync complete!'') s5)"
              using k5[unfolded ok5]
              by (rule stops_quiet[where es="[Notice ''Sync complete!'']"]) simp_all
            with a ok1 b ok2 c ok3 d ok4 e ok5 show ?thesis
              by (simp add: syncWithGoogleDrive_try_def)
          qed
        qed
      qed
    qed
  qed
qed

lemma try_throws_after_assignment:
  assumes "reachesAssignment h root s" and "syncWithGoogleDrive_try h root now s = (Threw e, s')"
  shows "e = RemoteError SaveData"
  using assms
  unfolding reachesAssignment_def syncWithGoogleDrive_try_def saveSettings_def saveFileIds_def
  by (auto split: prod.splits result.splits if_splits)

lemma pass_stops:
  assumes rej: "folderOpRejected h (requests (emitted s (syncWithGoogleDrive h root now s))) (world s)"
  shows "(\<exists>es0 c. emitted s (syncWithGoogleDrive h root now s)
                   = es0 @ [Call c, ConsoleError ''Error syncing with Google Drive:'',
                            Notice ''Error during sync. Please try again.'']
               \<and> isFolderOp c
               \<and> rejects h c (replay h (requests es0) (world s))
               \<and> \<not> folderOpRejected h (requests es0) (world s))
         \<and> settings (syncWithGoogleDrive h root now s) = settings s
         \<and> dataFile (syncWithGoogleDrive h root now s) = dataFile s"
proof -
  have li: "googleDriveRefreshToken (settings s) \<noteq> []"
  proof
    assume "googleDriveRefreshToken (settings s) = []"
    with rej show False by (simp add: syncWithGoogleDrive_def)
  qed
  obtain r s1 where t: "syncWithGoogleDrive_try h root now s = (r, s1)"
    by (cases "syncWithGoogleDrive_try h root now s")
  from stopsD[OF try_stops[of h s root now, unfolded t]] obtain es where
    tr: "trace s1 = trace s @ es"
    and st: "folderOpRejected h (requests es) (world s) \<longrightarrow>
               (\<exists>es0 c. es = es0 @ [Call c] \<and> isFolderOp c
                 \<and> rejects h c (replay h (requests es0) (world s))
                 \<and> \<not> folderOpRejected h (requests es0) (world s)
                 \<and> r = Threw (RemoteError c))"
    by blast
  have rq: "requests (emitted s (syncWithGoogleDrive h root now s)) = requests es"
    using li t tr by (cases r) (simp_all add: syncWithGoogleDrive_def emitted_def)
  with rej st obtain es0 c where es: "es = es0 @ [Call c]" and fo: "isFolderOp c"
    and rj: "rejects h c (replay h (requests es0) (world s))"
    and nb: "\<not> folderOpRejected h (requests es0) (world s)"
    and th: "r = Threw (RemoteError c)"
    by auto
  have em: "emitted s (syncWithGoogleDrive h root now s)
              = es0 @ [Call c, ConsoleError ''Error syncing with Google Drive:'',
                       Notice ''Error during sync. Please try again.'']"
    using li t th tr es by (simp add: syncWithGoogleDrive_def emitted_def)
  have "\<not> reachesAssignment h root s"
  proof
    assume "reachesAssignment h root s"
    from try_throws_after_assignment[OF this t[unfolded th]] fo show False
      by (simp add: isFolderOp_def)
  qed
  with sync_effect[of h root now s]
  have "settings (syncWithGoogleDrive h root now s) = settings s"
    "dataFile (syncWithGoogleDrive h root now s) = dataFile s"
    by simp_all
  with em fo rj nb show ?thesis by blast
qed

text \<open>
  C3, amended. No folder operation is handled per item. Whatever the collaborators
  answer: when a list query or a create-folder request that \<open>ensureDriveFolder\<close>,
  \<open>uploadFile\<close>, \<open>uploadObsidianFile\<close> or the traversal of a folder sends is rejected,
  that request is the last thing the operation does and the operation throws its
  error, so no item that follows is processed, at whatever depth and position the
  folder is. In a pass with a rejected folder operation, the rejected request is
  followed by the two lines of the handler of \<open>syncWithGoogleDrive\<close> and by nothing
  else, and \<open>lastSyncTimestamp\<close> and the data file stay as they were.
\<close>

theorem folder_failure_aborts_pass:
  "stopsAtRejection h s (ensureDriveFolder h folderPath s)
   \<and> stopsAtRejection h s (uploadFile h filePath body mimeType s)
   \<and> stopsAtRejection h s (uploadObsidianFile h tf cp s)
   \<and> stopsAtRejection h s (uploadFolderContents h items cp s)
   \<and> stopsAtRejection h s (uploadVaultContents h root s)
   \<and> (folderOpRejected h (requests (emitted s (syncWithGoogleDrive h root now s))) (world s) \<longrightarrow>
        (\<exists>es0 c. emitted s (syncWithGoogleDrive h root now s)
                   = es0 @ [Call c, ConsoleError ''Error syncing with Google Drive:'',
                            Notice ''Error during sync. Please try again.'']
               \<and> isFolderOp c
               \<and> rejects h c (replay h (requests es0) (world s))
               \<and> \<not> folderOpRejected h (requests es0) (world s))
        \<and> lastSyncTimestamp (settings (syncWithGoogleDrive h root now s))
            = lastSyncTimestamp (settings s)
        \<and> dataFile (syncWithGoogleDrive h root now s) = dataFile s)"
proof (intro conjI impI)
  show "stopsAtRejection h s (ensureDriveFolder h folderPath s)"
    by (rule ensureDriveFolder_stops)
  show "stopsAtRejection h s (uploadFile h filePath body mimeType s)"
    by (rule uploadFile_stops)
  show "stopsAtRejection h s (uploadObsidianFile h tf cp s)"
    by (rule uploadObsidianFile_stops)
  show "stopsAtRejection h s (uploadFolderContents h items cp s)"
    by (rule traversal_stops(1))
  show "stopsAtRejection h s (uploadVaultContents h root s)"
    unfolding uploadVaultContents_def by (rule traversal_stops(1))
next
  assume rej: "folderOpRejected h (requests (emitted s (syncWithGoogleDrive h root now s))) (world s)"
  from pass_stops[OF rej]
  show "\<exists>es0 c. emitted s (syncWithGoogleDrive h root now s)
                   = es0 @ [Call c, ConsoleError ''Error syncing with Google Drive:'',
                            Notice ''Error during sync. Please try again.'']
               \<and> isFolderOp c
               \<and> rejects h c (replay h (requests es0) (world s))
               \<and> \<not> folderOpRejected h (requests es0) (world s)"
    by blast
  from pass_stops[OF rej]
  show "lastSyncTimestamp (settings (syncWithGoogleDrive h root now s)) = lastSyncTimestamp (settings s)"
    by simp
  from pass_stops[OF rej]
  show "dataFile (syncWithGoogleDrive h root now s) = dataFile s"
    by simp
qed

text \<open>
  The hypotheses of the amended C3 are met: by an installation whose store rejects the
  next request, for the resolver, \<open>uploadFile\<close> and \<open>uploadObsidianFile\<close>; and, for the
  traversal and the pass, by a first pass over a vault with a note, then a folder
  holding a folder, on a store that rejects the list-children query for the inner
  folder: the note is uploaded, the outer folder is created, and the pass ends at the
  rejected query with the error notice.
\<close>

theorem folder_failure_aborts_pass_witness:
  "folderOpRejected memDrive
      (requests (emitted faultyPlugin (snd (ensureDriveFolder memDrive ''/notes/sub'' faultyPlugin))))
      (world faultyPlugin)
   \<and> (\<exists>es0 c. emitted faultyPlugin (snd (ensureDriveFolder memDrive ''/notes/sub'' faultyPlugin))
                  = es0 @ [Call c]
              \<and> isFolderOp c
              \<and> fst (ensureDriveFolder memDrive ''/notes/sub'' faultyPlugin) = Threw (RemoteError c))
   \<and> folderOpRejected memDrive
      (requests (emitted faultyPlugin
                  (snd (uploadFile memDrive ''/notes/a.md'' (Text ''hello'') ''text/markdown'' faultyPlugin))))
      (world faultyPlugin)
   \<and> (\<exists>es0 c. emitted faultyPlugin
                    (snd (uploadFile memDrive ''/notes/a.md'' (Text ''hello'') ''text/markdown'' faultyPlugin))
                  = es0 @ [Call c]
              \<and> isFolderOp c
              \<and> fst (uploadFile memDrive ''/notes/a.md'' (Text ''hello'') ''text/markdown'' faultyPlugin)
                  = Threw (RemoteError c))
   \<and> folderOpRejected memDrive
      (requests (emitted faultyPlugin (snd (uploadObsidianFile memDrive noteA ''/notes'' faultyPlugin))))
      (world faultyPlugin)
   \<and> (\<exists>es0 c. emitted faultyPlugin (snd (uploadObsidianFile memDrive noteA ''/notes'' faultyPlugin))
                  = es0 @ [Call c]
              \<and> isFolderOp c
              \<and> fst (uploadObsidianFile memDrive noteA ''/notes'' faultyPlugin) = Threw (RemoteError c))
   \<and> folderOpRejected memDrive
      (requests (emitted (atTraversal memDrive (freshPlugin nestedOutageStore))
                  (snd (uploadFolderContents memDrive nestedVault ''/''
                          (atTraversal memDrive (freshPlugin nestedOutageStore))))))
      (world (atTraversal memDrive (freshPlugin nestedOutageStore)))
   \<and> (\<exists>es0 c. emitted (atTraversal memDrive (freshPlugin nestedOutageStore))
                    (snd (uploadFolderContents memDrive nestedVault ''/''
                            (atTraversal memDrive (freshPlugin nestedOutageStore))))
                  = es0 @ [Call c]
              \<and> isFolderOp c
              \<and> fst (uploadFolderContents memDrive nestedVault ''/''
                       (atTraversal memDrive (freshPlugin nestedOutageStore)))
                  = Threw (RemoteError c))
   \<and> folderOpRejected memDrive
      (requests (emitted (freshPlugin nestedOutageStore)
                  (syncWithGoogleDrive memDrive nestedVault 100 (freshPlugin nestedOutageStore))))
      (world (freshPlugin nestedOutageStore))
   \<and> (\<exists>es0 c. emitted (freshPlugin nestedOutageStore)
                    (syncWithGoogleDrive memDrive nestedVault 100 (freshPlugin nestedOutageStore))
                  = es0 @ [Call c, ConsoleError ''Error syncing with Google Drive:'',
                           Notice ''Error during sync. Please try again.'']
              \<and> isFolderOp c
              \<and> rejects memDrive c (replay memDrive (requests es0) (world (freshPlugin nestedOutageStore)))
              \<and> \<not> folderOpRejected memDrive (requests es0) (world (freshPlugin nestedOutageStore)))
   \<and> emitted (freshPlugin nestedOutageStore)
        (syncWithGoogleDrive memDrive nestedVault 100 (freshPlugin nestedOutageStore))
       = [Call GetAccessToken, Notice ''Syncing with Google Drive...'',
          Call (FilesList (FolderNamed ''Obsidian Vault'')),
          Call (FilesCreate (FolderMeta ''Obsidian Vault'' [])),
          ConsoleLog ''Obsidian folder ID: id'', VaultRead ''/b.md'',
          Call (FilesCreate (FileMedia ''b.md'' [Some ''id''] ''text/markdown'' (Text ''world''))),
          ConsoleLog ''File created: /b.md, ID: id+'',
          Call (FilesList (FolderNamedIn ''notes'' (Some ''id''))),
          Call (FilesCreate (FolderMeta ''notes'' [Some ''id''])),
          Call (FilesList (FolderNamedIn ''sub'' (Some ''id++''))),
          ConsoleError ''Error syncing with Google Drive:'',
          Notice ''Error during sync. Please try again.'']
   \<and> lastSyncTimestamp (settings (syncWithGoogleDrive memDrive nestedVault 100 (freshPlugin nestedOutageStore)))
       = lastSyncTimestamp (settings (freshPlugin nestedOutageStore))"
proof -
  let ?t = "atTraversal memDrive (freshPlugin nestedOutageStore)"
  let ?s0 = "freshPlugin nestedOutageStore"
  have h1: "folderOpRejected memDrive
      (requests (emitted faultyPlugin (snd (ensureDriveFolder memDrive ''/notes/sub'' faultyPlugin))))
      (world faultyPlugin)"
    by code_simp
  have h2: "folderOpRejected memDrive
      (requests (emitted faultyPlugin
                  (snd (uploadFile memDrive ''/notes/a.md'' (Text ''hello'') ''text/markdown'' faultyPlugin))))
      (world faultyPlugin)"
    by code_simp
  have h3: "folderOpRejected memDrive
      (requests (emitted faultyPlugin (snd (uploadObsidianFile memDrive noteA ''/notes'' faultyPlugin))))
      (world faultyPlugin)"
    by code_simp
  have h4: "folderOpRejected memDrive
      (requests (emitted ?t (snd (uploadFolderContents memDrive nestedVault ''/'' ?t))))
      (world ?t)"
    by code_simp
  have h5: "folderOpRejected memDrive
      (requests (emitted ?s0 (syncWithGoogleDrive memDrive nestedVault 100 ?s0)))
      (world ?s0)"
    by code_simp
  have run: "emitted ?s0 (syncWithGoogleDrive memDrive nestedVault 100 ?s0)
       = [Call GetAccessToken, Notice ''Syncing with Google Drive...'',
          Call (FilesList (FolderNamed ''Obsidian Vault'')),
          Call (FilesCreate (FolderMeta ''Obsidian Vault'' [])),
          ConsoleLog ''Obsidian folder ID: id'', VaultRead ''/b.md'',
          Call (FilesCreate (FileMedia ''b.md'' [Some ''id''] ''text/markdown'' (Text ''world''))),
          ConsoleLog ''File created: /b.md, ID: id+'',
          Call (FilesList (FolderNamedIn ''notes'' (Some ''id''))),
          Call (FilesCreate (FolderMeta ''notes'' [Some ''id''])),
          Call (FilesList (FolderNamedIn ''sub'' (Some ''id++''))),
          ConsoleError ''Error syncing with Google Drive:'',
          Notice ''Error during sync. Please try again.'']"
    by code_simp
  note a = folder_failure_aborts_pass[where h=memDrive and s=faultyPlugin
      and folderPath="''/notes/sub''" and filePath="''/notes/a.md''" and body="Text ''hello''"
      and mimeType="''text/markdown''" and tf=noteA and cp="''/notes''", unfolded stopsAtRejection_def]
  note b = folder_failure_aborts_pass[where h=memDrive and s="?t" and items=nestedVault
      and cp="''/''", unfolded stopsAtRejection_def]
  note c = folder_failure_aborts_pass[where h=memDrive and s="?s0" and root=nestedVault and now=100]
  have c1: "\<exists>es0 c. emitted faultyPlugin (snd (ensureDriveFolder memDrive ''/notes/sub'' faultyPlugin))
                  = es0 @ [Call c]
              \<and> isFolderOp c
              \<and> fst (ensureDriveFolder memDrive ''/notes/sub'' faultyPlugin) = Threw (RemoteError c)"
    using a h1 by blast
  have c2: "\<exists>es0 c. emitted faultyPlugin
                    (snd (uploadFile memDrive ''/notes/a.md'' (Text ''hello'') ''text/markdown'' faultyPlugin))
                  = es0 @ [Call c]
              \<and> isFolderOp c
              \<and> fst (uploadFile memDrive ''/notes/a.md'' (Text ''hello'') ''text/markdown'' faultyPlugin)
                  = Threw (RemoteError c)"
    using a h2 by blast
  have c3: "\<exists>es0 c. emitted faultyPlugin (snd (uploadObsidianFile memDrive noteA ''/notes'' faultyPlugin))
                  = es0 @ [Call c]
              \<and> isFolderOp c
              \<and> fst (uploadObsidianFile memDrive noteA ''/notes'' faultyPlugin) = Threw (RemoteError c)"
    using a h3 by blast
  have c4: "\<exists>es0 c. emitted ?t (snd (uploadFolderContents memDrive nestedVault ''/'' ?t))
                  = es0 @ [Call c]
              \<and> isFolderOp c
              \<and> fst (uploadFolderContents memDrive nestedVault ''/'' ?t) = Threw (RemoteError c)"
    using b h4 by blast
  have c5: "(\<exists>es0 c. emitted ?s0 (syncWithGoogleDrive memDrive nestedVault 100 ?s0)
                  = es0 @ [Call c, ConsoleError ''Error syncing with Google Drive:'',
                           Notice ''Error during sync. Please try again.'']
              \<and> isFolderOp c
              \<and> rejects memDrive c (replay memDrive (requests es0) (world ?s0))
              \<and> \<not> folderOpRejected memDrive (requests es0) (world ?s0))
            \<and> lastSyncTimestamp (settings (syncWithGoogleDrive memDrive nestedVault 100 ?s0))
                = lastSyncTimestamp (settings ?s0)"
    using c h5 by blast
  from h1 c1 h2 c2 h3 c3 h4 c4 h5 c5 run show ?thesis
    by (intro conjI) (erule conjunct1 conjunct2 | assumption)+
qed

subsection \<open>The keys of the file-id mapping\<close>

lemma normalize_absolute:
  "p \<noteq> [] \<Longrightarrow> hd p = slash \<Longrightarrow> take 1 (path_normalize p) = ''/''"
  by (simp add: path_normalize_def Let_def slash_def)

lemma join_absolute:
  "take 1 cp = ''/'' \<Longrightarrow> take 1 (path_join cp name) = ''/''"
proof -
  assume a: "take 1 cp = ''/''"
  then have ne: "cp \<noteq> []" and hd: "hd cp = slash"
    by (cases cp; simp add: slash_def)+
  show ?thesis
    unfolding path_join_def
    using ne hd normalize_absolute[of cp] normalize_absolute[of "cp @ slash # name"] by auto
qed

lemma uploadObsidianFile_key:
  "uploadObsidianFile h tf cp s = (r, s') \<Longrightarrow> p \<noteq> path_join cp (tf_name tf) \<Longrightarrow>
     fileIds s' p = fileIds s p"
  unfolding uploadObsidianFile_unfold
  by (auto split: if_splits option.splits prod.splits result.splits
           dest!: readContent_frame uploadFile_frame)

lemma traversal_keys:
  "(\<forall>r s'. take 1 cp = ''/'' \<longrightarrow> uploadFolderContents h items cp s = (r, s') \<longrightarrow>
       (\<forall>p. fileIds s' p \<noteq> fileIds s p \<longrightarrow> take 1 p = ''/''))"
  "(\<forall>r s'. take 1 cp = ''/'' \<longrightarrow> uploadFolderItem h item cp s = (r, s') \<longrightarrow>
       (\<forall>p. fileIds s' p \<noteq> fileIds s p \<longrightarrow> take 1 p = ''/''))"
proof (induction h items cp s and h item cp s rule: uploadFolderContents_uploadFolderItem.induct)
  case (1 h currentPath s)
  then show ?case by simp
next
  case (2 h item items currentPath s)
  show ?case
  proof (intro allI impI)
    fix r s' p
    assume abs: "take 1 currentPath = ''/''"
      and a: "uploadFolderContents h (item # items) currentPath s = (r, s')"
      and ch: "fileIds s' p \<noteq> fileIds s p"
    obtain r1 s1 where i: "uploadFolderItem h item currentPath s = (r1, s1)"
      by (cases "uploadFolderItem h item currentPath s")
    with 2(1) abs have k1: "fileIds s1 p \<noteq> fileIds s p \<longrightarrow> take 1 p = ''/''" by blast
    show "take 1 p = ''/''"
    proof (cases r1)
      case (Threw e)
      with a i have "s' = s1" by simp
      with k1 ch show ?thesis by simp
    next
      case (Ok u)
      with a i have "uploadFolderContents h items currentPath s1 = (r, s')" by simp
      with 2(2)[OF i[symmetric] Ok] abs
      have "fileIds s' p \<noteq> fileIds s1 p \<longrightarrow> take 1 p = ''/''" by blast
      with k1 ch show ?thesis by metis
    qed
  qed
next
  case (3 h tf currentPath s)
  show ?case
  proof (intro allI impI)
    fix r s' p
    assume abs: "take 1 currentPath = ''/''"
      and a: "uploadFolderItem h (TFile tf) currentPath s = (r, s')"
      and ch: "fileIds s' p \<noteq> fileIds s p"
    from a have "uploadObsidianFile h tf currentPath s = (r, s')" by simp
    from uploadObsidianFile_key[OF this] ch have "p = path_join currentPath (tf_name tf)" by blast
    with join_absolute[OF abs] show "take 1 p = ''/''" by simp
  qed
next
  case (4 h name children currentPath s)
  show ?case
  proof (intro allI impI)
    fix r s' p
    assume abs: "take 1 currentPath = ''/''"
      and a: "uploadFolderItem h (TFolder name children) currentPath s = (r, s')"
      and ch: "fileIds s' p \<noteq> fileIds s p"
    let ?np = "path_join currentPath name"
    obtain r1 s1 where e: "ensureDriveFolder h ?np s = (r1, s1)"
      by (cases "ensureDriveFolder h ?np s")
    then have f1: "fileIds s1 = fileIds s" using ensureDriveFolder_frame by blast
    show "take 1 p = ''/''"
    proof (cases r1)
      case (Threw x)
      with a e have "s' = s1" by (simp add: Let_def)
      with f1 ch show ?thesis by simp
    next
      case (Ok parent)
      with a e have "uploadFolderContents h children ?np s1 = (r, s')" by (simp add: Let_def)
      with 4[OF refl e[symmetric] Ok] join_absolute[OF abs, of name]
      have "fileIds s' p \<noteq> fileIds s1 p \<longrightarrow> take 1 p = ''/''" by blast
      with f1 ch show ?thesis by simp
    qed
  qed
qed

text \<open>
  C5, as the claim states it, fails: on the vault holding exactly \<open>notes/a.md\<close>, with
  no prior sync, nothing is recorded under \<open>notes/a.md\<close>; the id of the new file is
  recorded under \<open>/notes/a.md\<close>.
\<close>

theorem fileIds_key_counterexample:
  "fileIds (syncWithGoogleDrive memDrive notesVault 100 (freshPlugin emptyStore)) ''notes/a.md'' = None
   \<and> fileIds (syncWithGoogleDrive memDrive notesVault 100 (freshPlugin emptyStore)) ''/notes/a.md''
       = Some ''id++''
   \<and> st_files (world (syncWithGoogleDrive memDrive notesVault 100 (freshPlugin emptyStore)))
       = [(''id++'', FileMedia ''a.md'' [Some ''id+''] ''text/markdown'' (Text ''hello''))]"
  by code_simp

text \<open>
  C5, amended. The traversal starts at \<open>/\<close> and every key it writes into \<open>fileIds\<close>
  is \<open>path.join(currentPath, name)\<close>, so every key starts with the separator; on the
  vault holding exactly \<open>notes/a.md\<close>, with no prior sync, the id of the new file is
  recorded under \<open>/notes/a.md\<close>.
\<close>

theorem fileIds_keys_are_rooted:
  "(\<forall>p. fileIds (snd (uploadVaultContents h root s)) p \<noteq> fileIds s p \<longrightarrow> take 1 p = ''/'')
   \<and> (\<forall>p. p \<noteq> path_join cp (tf_name tf) \<longrightarrow>
          fileIds (snd (uploadObsidianFile h tf cp s)) p = fileIds s p)
   \<and> fileIds (syncWithGoogleDrive memDrive notesVault 100 (freshPlugin emptyStore)) ''/notes/a.md''
       = Some ''id++''"
proof (intro conjI allI impI)
  fix p
  assume ch: "fileIds (snd (uploadVaultContents h root s)) p \<noteq> fileIds s p"
  obtain r s' where u: "uploadFolderContents h root ''/'' s = (r, s')"
    by (cases "uploadFolderContents h root ''/'' s")
  with traversal_keys(1)[of "''/''" h root s] ch
  show "take 1 p = ''/''"
    by (simp add: uploadVaultContents_def)
next
  fix p
  assume "p \<noteq> path_join cp (tf_name tf)"
  then show "fileIds (snd (uploadObsidianFile h tf cp s)) p = fileIds s p"
    using uploadObsidianFile_key[of h tf cp s _ _ p]
    by (cases "uploadObsidianFile h tf cp s") simp
next
  show "fileIds (syncWithGoogleDrive memDrive notesVault 100 (freshPlugin emptyStore)) ''/notes/a.md''
       = Some ''id++''"
    by code_simp
qed

text \<open>
  The hypotheses of the amended C5 are met: the traversal of the vault holding
  \<open>notes/a.md\<close> changes \<open>fileIds\<close> at \<open>/notes/a.md\<close>, and uploading \<open>a.md\<close> from the
  top leaves the entry of any other path alone.
\<close>

theorem fileIds_keys_are_rooted_witness:
  "fileIds (snd (uploadVaultContents memDrive notesVault (freshPlugin emptyStore))) ''/notes/a.md''
     \<noteq> fileIds (freshPlugin emptyStore) ''/notes/a.md''
   \<and> take 1 ''/notes/a.md'' = ''/''
   \<and> ''/b.md'' \<noteq> path_join ''/'' (tf_name noteA)
   \<and> fileIds (snd (uploadObsidianFile memDrive noteA ''/'' (freshPlugin emptyStore))) ''/b.md''
       = fileIds (freshPlugin emptyStore) ''/b.md''"
proof -
  have h1: "fileIds (snd (uploadVaultContents memDrive notesVault (freshPlugin emptyStore))) ''/notes/a.md''
     \<noteq> fileIds (freshPlugin emptyStore) ''/notes/a.md''"
    by code_simp
  have h2: "''/b.md'' \<noteq> path_join ''/'' (tf_name noteA)"
    by code_simp
  from fileIds_keys_are_rooted[where h=memDrive and root=notesVault and s="freshPlugin emptyStore"
      and cp="''/''" and tf=noteA] h1 h2
  show ?thesis by blast
qed

subsection \<open>Paths\<close>

lemma splitOn_nonempty [simp]: "splitOn c s \<noteq> []"
  by (induction s) (auto split: list.splits)


















subsection \<open>The in-memory store\<close>

lemma silent_refl [simp]: "silent P s s"
  by (simp add: silent_def)




















subsection \<open>The traversal on the in-memory store\<close>







subsection \<open>Two passes in a row\<close>













end
